theory Spec2Isabelle
  imports Complex_Main "HOL-Library.Sublist"
begin

section \<open>The resilient multi-provider access layer of monVOX\<close>

text \<open>
  A shallow embedding of \<^verbatim>\<open>src/services/LLMProvider.ts\<close>: the three provider
  classes, the factory \<^verbatim>\<open>LLMFactory\<close> and the accessor \<^verbatim>\<open>ResilientLLMService\<close>
  with its circuit breaker.

  Conventions of the embedding.
  \<^item> A thrown JavaScript value is a value of type \<open>thrown\<close>; a function that may throw
    returns \<open>thrown + 'a\<close>, with \<open>Inl\<close> for the exception.
  \<^item> The outside of the layer is a \<open>world\<close>: what \<^verbatim>\<open>FeatureFlagService.isEnabled\<close>
    answers, what the vendor calls of \<^verbatim>\<open>api/chat-service\<close> answer (and how long they
    take), and what \<^verbatim>\<open>Math.random\<close> draws. The answers of \<^verbatim>\<open>isEnabled\<close> are fixed
    for the duration of one request (one logical caller, no concurrent toggling).
  \<^item> Mutable fields (the accessor's, the factory's cache, the clock read by
    \<^verbatim>\<open>Date.now()\<close>) are the fields of one \<open>state\<close> record that every operation takes
    and returns. The clock advances only while a vendor call or a streaming delay is awaited.
  \<^item> The streaming callbacks are code of the caller: a call on them returns or throws,
    and the \<^verbatim>\<open>try\<close> blocks around the calls are modelled as they stand.
  \<^item> A string is the list of its code units, so \<open>length\<close> is the \<^verbatim>\<open>length\<close> of
    the source.
  \<^item> \<^verbatim>\<open>AuditService.log\<close>, \<^verbatim>\<open>console.warn\<close> and the metrics recorded by
    \<^verbatim>\<open>PerformanceMonitor\<close> are write-only sinks that never throw and never feed back
    into a result; they are left out. The value returned by \<^verbatim>\<open>endTimer\<close> is kept.
\<close>

subsection \<open>Data model\<close>

text \<open>\<^verbatim>\<open>enum FeatureFlags\<close> of \<^verbatim>\<open>FeatureFlagService.ts\<close>.\<close>

datatype FeatureFlags =
    LOCAL_LLM | STREAMING_RESPONSES | CONTEXT_MEMORY
  | VOICE_WAKE_WORD | CONTINUOUS_LISTENING | VOICE_COMMANDS
  | SENSOR_PIPELINE | COMPUTER_VISION | LOCATION_CONTEXT
  | BACKGROUND_TASKS | PROACTIVE_SUGGESTIONS | CUSTOM_AUTOMATIONS
  | STRICT_LOCAL_MODE | ENHANCED_ENCRYPTION | AUDIT_LOGGING
  | DARK_MODE | INTERACTIVE_ONBOARDING | ADVANCED_SETTINGS
  | DEBUG_MODE | PERFORMANCE_MONITORING | MOCK_AUTHENTICATION

text \<open>A thrown value: an \<^verbatim>\<open>Error\<close> with its message, or anything else.\<close>

datatype thrown = Error string | NotAnError string

datatype role = system | user | assistant

record AIMessage =
  role :: role
  content :: string

text \<open>
  \<^verbatim>\<open>interface LLMOptions\<close>: every field optional. \<^verbatim>\<open>maxTokens\<close> is a positive
  integer and \<^verbatim>\<open>temperature\<close> a number between 0 and 2 in the data model; no arithmetic
  is done on either, so they are \<open>int\<close> and \<open>real\<close>.
\<close>

record LLMOptions =
  maxTokens :: "int option"
  temperature :: "real option"
  model :: "string option"
  streaming :: "bool option"
  systemPrompt :: "string option"

record usage =
  promptTokens :: real
  completionTokens :: real
  totalTokens :: real

text \<open>What a vendor call is sent, and what it answers.\<close>

record api_request =
  req_model :: string
  req_temperature :: real
  req_maxTokens :: int

record api_response =
  api_content :: string
  api_usage :: "usage option"

record LLMResponse =
  resp_content :: string
  resp_usage :: "usage option"
  resp_model :: string
  resp_provider :: string
  processingTime :: int

text \<open>The three subclasses of \<^verbatim>\<open>LLMProvider\<close>; their instances carry no fields of their own
  beyond the constants below.\<close>

datatype provider = OpenAI | Anthropic | Local

fun name :: "provider \<Rightarrow> string" where
  "name OpenAI = ''OpenAI''"
| "name Anthropic = ''Anthropic''"
| "name Local = ''Local''"

fun supportsStreaming :: "provider \<Rightarrow> bool" where
  "supportsStreaming OpenAI = True"
| "supportsStreaming Anthropic = True"
| "supportsStreaming Local = True"

fun isLocal :: "provider \<Rightarrow> bool" where
  "isLocal OpenAI = False"
| "isLocal Anthropic = False"
| "isLocal Local = True"

fun requiresNetwork :: "provider \<Rightarrow> bool" where
  "requiresNetwork OpenAI = True"
| "requiresNetwork Anthropic = True"
| "requiresNetwork Local = False"

text \<open>The argument type of \<^verbatim>\<open>getProvider\<close> and \<^verbatim>\<open>switchProvider\<close>:
  \<^verbatim>\<open>'openai' | 'anthropic' | 'local' | 'auto'\<close>.\<close>

datatype provider_type = openai | anthropic | local | auto

text \<open>
  The world outside the layer. \<open>vendor w p msgs req n\<close> is what the vendor call of
  provider \<open>p\<close> answers when it is the call number \<open>n\<close> of the session: the
  milliseconds it takes, and a response or a thrown value. \<open>random w n\<close> is the index
  that \<^verbatim>\<open>Math.floor(Math.random() * responses.length)\<close> draws at call number \<open>n\<close>.
\<close>

record world =
  isEnabled :: "FeatureFlags \<Rightarrow> bool"
  vendor :: "provider \<Rightarrow> AIMessage list \<Rightarrow> api_request \<Rightarrow> nat \<Rightarrow> nat \<times> (thrown + api_response)"
  random :: "nat \<Rightarrow> nat"

text \<open>
  The mutable state.
  \<^item> \<open>now\<close>: the value of \<^verbatim>\<open>Date.now()\<close>.
  \<^item> \<open>invoked\<close>: the providers whose \<^verbatim>\<open>generateResponse\<close> has been entered, oldest first.
  \<^item> \<open>sent\<close>: the requests handed to the vendor calls, oldest first.
  \<^item> \<open>providers\<close>: the keys of the factory's cache \<^verbatim>\<open>LLMFactory.providers\<close>; the cache
    maps a key to the one instance of the class of that key.
  \<^item> the four private fields of \<^verbatim>\<open>ResilientLLMService\<close>; the two maps are keyed by
    provider name.
\<close>

record state =
  now :: int
  invoked :: "provider list"
  sent :: "(provider \<times> api_request) list"
  providers :: "provider_type set"
  primaryProvider :: provider
  fallbackProviders :: "provider list"
  failureCount :: "string \<rightharpoonup> nat"
  lastFailureTime :: "string \<rightharpoonup> int"

definition CIRCUIT_BREAKER_THRESHOLD :: nat where
  "CIRCUIT_BREAKER_THRESHOLD = 3"

definition CIRCUIT_BREAKER_TIMEOUT :: int where
  "CIRCUIT_BREAKER_TIMEOUT = 60000"

subsection \<open>JavaScript idioms\<close>

text \<open>
  \<^verbatim>\<open>options?.field\<close>: \<^verbatim>\<open>undefined\<close> when \<^verbatim>\<open>options\<close> itself is, the field otherwise.
\<close>

definition optional_chain :: "LLMOptions option \<Rightarrow> (LLMOptions \<Rightarrow> 'a option) \<Rightarrow> 'a option" where
  "optional_chain options field = (case options of None \<Rightarrow> None | Some opts \<Rightarrow> field opts)"

text \<open>
  \<^verbatim>\<open>v || d\<close> yields \<^verbatim>\<open>d\<close> when \<^verbatim>\<open>v\<close> is falsy: \<^verbatim>\<open>undefined\<close>, the number 0
  or the empty string.
\<close>

definition or_number :: "'a::zero option \<Rightarrow> 'a \<Rightarrow> 'a" where
  "or_number v d = (case v of None \<Rightarrow> d | Some x \<Rightarrow> if x = 0 then d else x)"

definition or_string :: "string option \<Rightarrow> string \<Rightarrow> string" where
  "or_string v d = (case v of None \<Rightarrow> d | Some x \<Rightarrow> if x = [] then d else x)"

text \<open>\<^verbatim>\<open>error instanceof Error ? error : new Error(msg)\<close>.\<close>

fun as_Error :: "thrown \<Rightarrow> string \<Rightarrow> thrown" where
  "as_Error (Error m) msg = Error m"
| "as_Error (NotAnError v) msg = Error msg"

text \<open>\<^verbatim>\<open>s.split(' ')\<close>: the pieces between single spaces; never an empty array.\<close>

fun split_space :: "string \<Rightarrow> string list" where
  "split_space [] = [] # []"
| "split_space (c # cs) =
     (if c = CHR '' '' then [] # split_space cs
      else (case split_space cs of
              [] \<Rightarrow> [c] # []
            | word # words \<Rightarrow> (c # word) # words))"


text \<open>
  \<^verbatim>\<open>PerformanceMonitor.endTimer\<close>: the time since \<^verbatim>\<open>startTimer\<close> stored
  \<^verbatim>\<open>Date.now()\<close> under the operation id, or 0 when the stored start time is falsy.
\<close>

definition endTimer :: "int \<Rightarrow> int \<Rightarrow> int" where
  "endTimer startTime t = (if startTime = 0 then 0 else t - startTime)"

subsection \<open>The factory\<close>

text \<open>
  \<^verbatim>\<open>LLMFactory.getProvider\<close> and \<^verbatim>\<open>getOptimalProvider\<close> call each other. A concrete
  kind is looked up in the cache and created and stored when missing; either way the
  instance of the class of that kind comes back. The \<^verbatim>\<open>default:\<close> branch of the switch
  is excluded by the argument type.
\<close>

function getProvider :: "world \<Rightarrow> provider_type \<Rightarrow> provider_type set \<Rightarrow> provider \<times> provider_type set"
  and getOptimalProvider :: "world \<Rightarrow> provider_type set \<Rightarrow> provider \<times> provider_type set" where
  "getProvider w auto cache = getOptimalProvider w cache"
| "getProvider w openai cache =
     (if openai \<in> cache then (OpenAI, cache) else (OpenAI, insert openai cache))"
| "getProvider w anthropic cache =
     (if anthropic \<in> cache then (Anthropic, cache) else (Anthropic, insert anthropic cache))"
| "getProvider w local cache =
     (if local \<in> cache then (Local, cache) else (Local, insert local cache))"
| "getOptimalProvider w cache =
     (if isEnabled w STRICT_LOCAL_MODE then getProvider w local cache
      else if isEnabled w LOCAL_LLM then getProvider w local cache
      else getProvider w anthropic cache)"
  by pat_completeness auto
termination
  by (relation "measure (\<lambda>x. case x of Inl (w, type, cache) \<Rightarrow> (if type = auto then 2 else 0) | Inr (w, cache) \<Rightarrow> 1)") auto

subsection \<open>The providers\<close>

definition isAvailable :: "world \<Rightarrow> provider \<Rightarrow> bool" where
  "isAvailable w p =
     (case p of
        OpenAI \<Rightarrow> isEnabled w STREAMING_RESPONSES
      | Anthropic \<Rightarrow> isEnabled w STREAMING_RESPONSES
      | Local \<Rightarrow> isEnabled w LOCAL_LLM)"

text \<open>
  \<^verbatim>\<open>OpenAIProvider.generateResponse\<close>. The vendor call is awaited, so the clock moves
  by the time the call takes. Whatever the vendor call throws is thrown again.
\<close>

definition OpenAI_generateResponse ::
  "world \<Rightarrow> AIMessage list \<Rightarrow> LLMOptions option \<Rightarrow> state \<Rightarrow> (thrown + LLMResponse) \<times> state" where
  "OpenAI_generateResponse w messages options s =
     (let startTime = now s;
          request = \<lparr>req_model = or_string (optional_chain options model) ''gpt-4o'',
                     req_temperature = or_number (optional_chain options temperature) 0.7,
                     req_maxTokens = or_number (optional_chain options maxTokens) 1024\<rparr>;
          (elapsed, answer) = vendor w OpenAI messages request (length (invoked s));
          s1 = s\<lparr>now := now s + int elapsed,
                 invoked := invoked s @ [OpenAI],
                 sent := sent s @ [(OpenAI, request)]\<rparr>
      in case answer of
           Inr response \<Rightarrow>
             (Inr \<lparr>resp_content = api_content response,
                   resp_usage = api_usage response,
                   resp_model = or_string (optional_chain options model) ''gpt-4o'',
                   resp_provider = name OpenAI,
                   processingTime = endTimer startTime (now s1)\<rparr>, s1)
         | Inl error \<Rightarrow> (Inl error, s1))"

text \<open>\<^verbatim>\<open>AnthropicProvider.generateResponse\<close>.\<close>

definition Anthropic_generateResponse ::
  "world \<Rightarrow> AIMessage list \<Rightarrow> LLMOptions option \<Rightarrow> state \<Rightarrow> (thrown + LLMResponse) \<times> state" where
  "Anthropic_generateResponse w messages options s =
     (let startTime = now s;
          request = \<lparr>req_model = or_string (optional_chain options model) ''claude-3-5-sonnet-20240620'',
                     req_temperature = or_number (optional_chain options temperature) 0.7,
                     req_maxTokens = or_number (optional_chain options maxTokens) 1024\<rparr>;
          (elapsed, answer) = vendor w Anthropic messages request (length (invoked s));
          s1 = s\<lparr>now := now s + int elapsed,
                 invoked := invoked s @ [Anthropic],
                 sent := sent s @ [(Anthropic, request)]\<rparr>
      in case answer of
           Inr response \<Rightarrow>
             (Inr \<lparr>resp_content = api_content response,
                   resp_usage = api_usage response,
                   resp_model = or_string (optional_chain options model) ''claude-3-5-sonnet-20240620'',
                   resp_provider = name Anthropic,
                   processingTime = endTimer startTime (now s1)\<rparr>, s1)
         | Inl error \<Rightarrow> (Inl error, s1))"

text \<open>The table of \<^verbatim>\<open>LocalLLMProvider.generateSimulatedResponse\<close>; the accented letters
  are single characters, as they are single UTF-16 units in the source.\<close>

definition responses :: "string list" where
  "responses =
    [''Je comprends votre question. En tant qu'assistant IA priv'' @ [CHR 0xE9]
       @ '' fonctionnant enti'' @ [CHR 0xE8] @ ''rement sur votre appareil, je peux vous aider de mani''
       @ [CHR 0xE8] @ ''re s'' @ [CHR 0xE9] @ ''curis'' @ [CHR 0xE9] @ ''e.'',
     ''Voici une r'' @ [CHR 0xE9] @ ''ponse g'' @ [CHR 0xE9] @ ''n'' @ [CHR 0xE9] @ ''r'' @ [CHR 0xE9]
       @ ''e localement sur votre appareil. Vos donn'' @ [CHR 0xE9] @ ''es restent priv''
       @ [CHR 0xE9] @ ''es et ne quittent jamais votre iPhone.'',
     ''Excellente question ! En mode local, je traite vos demandes sans connexion internet, garantissant une confidentialit''
       @ [CHR 0xE9] @ '' absolue.'',
     ''Je traite cette demande directement sur votre appareil. Cela peut prendre un peu plus de temps, mais vos donn''
       @ [CHR 0xE9] @ ''es restent enti'' @ [CHR 0xE8] @ ''rement priv'' @ [CHR 0xE9] @ ''es.'']"

definition generateSimulatedResponse :: "world \<Rightarrow> AIMessage list \<Rightarrow> nat \<Rightarrow> string" where
  "generateSimulatedResponse w messages n = responses ! (random w n mod length responses)"

text \<open>
  \<^verbatim>\<open>LocalLLMProvider.generateResponse\<close>. The flag is checked before anything else.
  Nothing inside the \<^verbatim>\<open>try\<close> block can throw, so its \<^verbatim>\<open>catch\<close> has no counterpart;
  the inference is synchronous, so the clock does not move.
\<close>

definition Local_generateResponse ::
  "world \<Rightarrow> AIMessage list \<Rightarrow> LLMOptions option \<Rightarrow> state \<Rightarrow> (thrown + LLMResponse) \<times> state" where
  "Local_generateResponse w messages options s =
     (let s1 = s\<lparr>invoked := invoked s @ [Local]\<rparr>
      in if \<not> isEnabled w LOCAL_LLM then (Inl (Error ''Local LLM is not enabled''), s1)
         else
           (let startTime = now s1;
                simulatedResponse = generateSimulatedResponse w messages (length (invoked s));
                elapsed = endTimer startTime (now s1);
                tokens = real (length simulatedResponse) / 4
            in (Inr \<lparr>resp_content = simulatedResponse,
                      resp_usage = Some \<lparr>promptTokens =
                                            foldl (\<lambda>acc msg. acc + real (length (content msg)) / 4) 0 messages,
                                          completionTokens = tokens,
                                          totalTokens = 0\<rparr>,
                      resp_model = ''phi-3-mini'',
                      resp_provider = name Local,
                      processingTime = elapsed\<rparr>, s1)))"

text \<open>Dynamic dispatch of \<^verbatim>\<open>provider.generateResponse(messages, options)\<close>.\<close>

definition provider_generateResponse ::
  "world \<Rightarrow> provider \<Rightarrow> AIMessage list \<Rightarrow> LLMOptions option \<Rightarrow> state \<Rightarrow> (thrown + LLMResponse) \<times> state" where
  "provider_generateResponse w p messages options s =
     (case p of
        OpenAI \<Rightarrow> OpenAI_generateResponse w messages options s
      | Anthropic \<Rightarrow> Anthropic_generateResponse w messages options s
      | Local \<Rightarrow> Local_generateResponse w messages options s)"

subsection \<open>Streaming by a provider\<close>

text \<open>A call made on the \<^verbatim>\<open>StreamingCallback\<close> object handed in by the caller.\<close>

datatype callback = onToken string | onComplete LLMResponse | onError thrown

text \<open>
  The \<^verbatim>\<open>StreamingCallback\<close> object itself is code of the caller, and any of its three
  functions may throw. \<open>callbacks calls c\<close> is what the call \<open>c\<close> throws when \<open>calls\<close> are
  the calls made on the object before it, and \<open>None\<close> when the call returns.
\<close>

type_synonym StreamingCallback = "callback list \<Rightarrow> callback \<Rightarrow> thrown option"

text \<open>Making the call \<open>c\<close> after \<open>calls\<close>: whether it returned or threw, and the calls made
  so far.\<close>

definition invoke :: "StreamingCallback \<Rightarrow> callback \<Rightarrow> callback list \<Rightarrow> (thrown + unit) \<times> callback list" where
  "invoke callbacks c calls =
     ((case callbacks calls c of None \<Rightarrow> Inr () | Some error \<Rightarrow> Inl error), calls @ [c])"

text \<open>
  The loop \<^verbatim>\<open>for (let i = 0; i < words.length; i++)\<close> of the three
  \<^verbatim>\<open>streamResponse\<close> methods, from index \<open>i\<close> with the text accumulated so far. Each
  round extends the text, hands it to \<^verbatim>\<open>onToken\<close> and then waits for the delay; a
  throwing \<^verbatim>\<open>onToken\<close> leaves the loop with what it threw.
\<close>

fun stream_words ::
  "StreamingCallback \<Rightarrow> nat \<Rightarrow> string list \<Rightarrow> nat \<Rightarrow> string \<Rightarrow> callback list \<Rightarrow> state
    \<Rightarrow> (thrown + unit) \<times> callback list \<times> state" where
  "stream_words callbacks delay [] i accumulated calls s = (Inr (), calls, s)"
| "stream_words callbacks delay (word # words) i accumulated calls s =
     (let accumulated' = accumulated @ (if i > 0 then '' '' else []) @ word
      in case invoke callbacks (onToken accumulated') calls of
           (Inl error, calls1) \<Rightarrow> (Inl error, calls1, s)
         | (Inr u, calls1) \<Rightarrow>
             stream_words callbacks delay words (Suc i) accumulated' calls1
               (s\<lparr>now := now s + int delay\<rparr>))"

text \<open>
  The body shared by the three \<^verbatim>\<open>streamResponse\<close> methods, which differ in the
  \<^verbatim>\<open>generateResponse\<close> they call, the delay after each token and the message of the
  replacement error. The \<^verbatim>\<open>try\<close> block holds the call of \<^verbatim>\<open>generateResponse\<close>, the
  loop and the call of \<^verbatim>\<open>onComplete\<close>; whatever is thrown inside it, by
  \<^verbatim>\<open>generateResponse\<close> or by a callback, reaches the \<^verbatim>\<open>catch\<close>, which calls
  \<^verbatim>\<open>onError\<close>. The first component of the result is how the returned promise settles:
  it rejects when \<^verbatim>\<open>onError\<close> itself throws.
\<close>

definition stream_body ::
  "(AIMessage list \<Rightarrow> LLMOptions option \<Rightarrow> state \<Rightarrow> (thrown + LLMResponse) \<times> state)
    \<Rightarrow> nat \<Rightarrow> string \<Rightarrow> StreamingCallback \<Rightarrow> AIMessage list \<Rightarrow> LLMOptions \<Rightarrow> state
    \<Rightarrow> (thrown + unit) \<times> callback list \<times> state" where
  "stream_body generate delay msg callbacks messages options s =
     (let startTime = now s;
          handler = (\<lambda>error calls s1.
             case invoke callbacks (onError (as_Error error msg)) calls of
               (settled, calls1) \<Rightarrow> (settled, calls1, s1))
      in case generate messages (Some options) s of
           (Inr response, s1) \<Rightarrow>
             (case stream_words callbacks delay (split_space (resp_content response)) 0 [] [] s1 of
                (Inr u, calls, s2) \<Rightarrow>
                  (case invoke callbacks
                          (onComplete (response\<lparr>processingTime := now s2 - startTime\<rparr>)) calls of
                     (Inr u', calls1) \<Rightarrow> (Inr (), calls1, s2)
                   | (Inl error, calls1) \<Rightarrow> handler error calls1 s2)
              | (Inl error, calls, s2) \<Rightarrow> handler error calls s2)
         | (Inl error, s1) \<Rightarrow> handler error [] s1)"

definition OpenAI_streamResponse ::
  "world \<Rightarrow> StreamingCallback \<Rightarrow> AIMessage list \<Rightarrow> LLMOptions \<Rightarrow> state
    \<Rightarrow> (thrown + unit) \<times> callback list \<times> state" where
  "OpenAI_streamResponse w = stream_body (OpenAI_generateResponse w) 50 ''Unknown error''"

definition Anthropic_streamResponse ::
  "world \<Rightarrow> StreamingCallback \<Rightarrow> AIMessage list \<Rightarrow> LLMOptions \<Rightarrow> state
    \<Rightarrow> (thrown + unit) \<times> callback list \<times> state" where
  "Anthropic_streamResponse w = stream_body (Anthropic_generateResponse w) 40 ''Unknown error''"

definition Local_streamResponse ::
  "world \<Rightarrow> StreamingCallback \<Rightarrow> AIMessage list \<Rightarrow> LLMOptions \<Rightarrow> state
    \<Rightarrow> (thrown + unit) \<times> callback list \<times> state" where
  "Local_streamResponse w = stream_body (Local_generateResponse w) 25 ''Local LLM error''"

definition provider_streamResponse ::
  "world \<Rightarrow> provider \<Rightarrow> StreamingCallback \<Rightarrow> AIMessage list \<Rightarrow> LLMOptions \<Rightarrow> state
    \<Rightarrow> (thrown + unit) \<times> callback list \<times> state" where
  "provider_streamResponse w p callbacks messages options s =
     (case p of
        OpenAI \<Rightarrow> OpenAI_streamResponse w callbacks messages options s
      | Anthropic \<Rightarrow> Anthropic_streamResponse w callbacks messages options s
      | Local \<Rightarrow> Local_streamResponse w callbacks messages options s)"

subsection \<open>The accessor\<close>

text \<open>The accessor as its constructor leaves it, in a process started at time \<open>t\<close>.\<close>

definition new_ResilientLLMService :: "int \<Rightarrow> state" where
  "new_ResilientLLMService t =
     \<lparr>now = t, invoked = [], sent = [], providers = {anthropic, openai},
      primaryProvider = Anthropic, fallbackProviders = [OpenAI],
      failureCount = Map.empty, lastFailureTime = Map.empty\<rparr>"

definition initializeProviders :: "world \<Rightarrow> state \<Rightarrow> state" where
  "initializeProviders w s =
     (let (primary, c1) = getProvider w auto (providers s);
          (fallback1, c2) = getProvider w anthropic c1;
          (fallback2, c3) = getProvider w openai c2
      in s\<lparr>providers := c3, primaryProvider := primary,
            fallbackProviders := [fallback1, fallback2]\<rparr>)"

text \<open>\<^verbatim>\<open>map.get(providerName) || 0\<close>.\<close>

definition failures :: "state \<Rightarrow> string \<Rightarrow> nat" where
  "failures s providerName = (case failureCount s providerName of None \<Rightarrow> 0 | Some n \<Rightarrow> n)"

definition lastFailure :: "state \<Rightarrow> string \<Rightarrow> int" where
  "lastFailure s providerName = (case lastFailureTime s providerName of None \<Rightarrow> 0 | Some t \<Rightarrow> t)"

definition shouldAttemptProvider :: "string \<Rightarrow> state \<Rightarrow> bool" where
  "shouldAttemptProvider providerName s =
     (if failures s providerName < CIRCUIT_BREAKER_THRESHOLD then True
      else now s - lastFailure s providerName > CIRCUIT_BREAKER_TIMEOUT)"

definition recordSuccess :: "string \<Rightarrow> state \<Rightarrow> state" where
  "recordSuccess providerName s =
     s\<lparr>failureCount := (failureCount s)(providerName \<mapsto> 0),
       lastFailureTime := (lastFailureTime s)(providerName := None)\<rparr>"

definition recordFailure :: "string \<Rightarrow> state \<Rightarrow> state" where
  "recordFailure providerName s =
     (let currentFailures = failures s providerName
      in s\<lparr>failureCount := (failureCount s)(providerName \<mapsto> currentFailures + 1),
            lastFailureTime := (lastFailureTime s)(providerName \<mapsto> now s)\<rparr>)"

text \<open>
  The \<^verbatim>\<open>try\<close> block that \<^verbatim>\<open>generateResponse\<close> runs for a candidate that passed the
  circuit check; the one for the primary and the one in the loop over the fallbacks differ
  in their log lines only. \<open>Some\<close> is the \<^verbatim>\<open>return response\<close>; \<open>None\<close> is falling out
  of the block, after the \<^verbatim>\<open>catch\<close> or because the provider is not available.
\<close>

definition attempt ::
  "world \<Rightarrow> provider \<Rightarrow> AIMessage list \<Rightarrow> LLMOptions option \<Rightarrow> state \<Rightarrow> LLMResponse option \<times> state" where
  "attempt w p messages options s =
     (if isAvailable w p then
        (case provider_generateResponse w p messages options s of
           (Inr response, s1) \<Rightarrow> (Some response, recordSuccess (name p) s1)
         | (Inl error, s1) \<Rightarrow> (None, recordFailure (name p) s1))
      else (None, s))"

text \<open>The loop \<^verbatim>\<open>for (const fallback of this.fallbackProviders)\<close> and the
  \<^verbatim>\<open>throw\<close> that follows it.\<close>

fun tryFallbacks ::
  "world \<Rightarrow> provider list \<Rightarrow> AIMessage list \<Rightarrow> LLMOptions option \<Rightarrow> state \<Rightarrow> (thrown + LLMResponse) \<times> state" where
  "tryFallbacks w [] messages options s =
     (Inl (Error ''All LLM providers are currently unavailable''), s)"
| "tryFallbacks w (fallback # rest) messages options s =
     (if \<not> shouldAttemptProvider (name fallback) s then tryFallbacks w rest messages options s
      else (case attempt w fallback messages options s of
              (Some response, s1) \<Rightarrow> (Inr response, s1)
            | (None, s1) \<Rightarrow> tryFallbacks w rest messages options s1))"

text \<open>\<^verbatim>\<open>ResilientLLMService.generateResponse\<close>.\<close>

definition generateResponse ::
  "world \<Rightarrow> AIMessage list \<Rightarrow> LLMOptions option \<Rightarrow> state \<Rightarrow> (thrown + LLMResponse) \<times> state" where
  "generateResponse w messages options s =
     (let s0 = initializeProviders w s
      in case (if shouldAttemptProvider (name (primaryProvider s0)) s0
               then attempt w (primaryProvider s0) messages options s0
               else (None, s0)) of
           (Some response, s1) \<Rightarrow> (Inr response, s1)
         | (None, s1) \<Rightarrow> tryFallbacks w (fallbackProviders s1) messages options s1)"

text \<open>
  \<^verbatim>\<open>ResilientLLMService.streamResponse\<close>. The first \<^verbatim>\<open>try\<close> returns when the primary's
  \<^verbatim>\<open>streamResponse\<close> promise fulfils; its \<^verbatim>\<open>catch\<close> runs when that promise rejects,
  and what \<^verbatim>\<open>onError\<close> throws inside the \<^verbatim>\<open>catch\<close> leaves the method. Control reaches
  the second \<^verbatim>\<open>try\<close> after the \<^verbatim>\<open>catch\<close>, or when the primary is not available or
  does not stream; there \<^verbatim>\<open>onComplete\<close> is called inside the \<^verbatim>\<open>try\<close> and \<^verbatim>\<open>onError\<close>
  inside the \<^verbatim>\<open>catch\<close>. The first component of the result is how the promise settles.
\<close>

definition streamResponse ::
  "world \<Rightarrow> StreamingCallback \<Rightarrow> AIMessage list \<Rightarrow> LLMOptions \<Rightarrow> state
    \<Rightarrow> (thrown + unit) \<times> callback list \<times> state" where
  "streamResponse w callbacks messages options s =
     (let s0 = initializeProviders w s;
          handler = (\<lambda>error calls s1.
             case invoke callbacks (onError (as_Error error ''All providers failed'')) calls of
               (settled, calls1) \<Rightarrow> (settled, calls1, s1));
          fallback = (\<lambda>calls s1.
             case generateResponse w messages (Some options) s1 of
               (Inr response, s2) \<Rightarrow>
                 (case invoke callbacks (onComplete response) calls of
                    (Inr u, calls1) \<Rightarrow> (Inr (), calls1, s2)
                  | (Inl error, calls1) \<Rightarrow> handler error calls1 s2)
             | (Inl error, s2) \<Rightarrow> handler error calls s2)
      in if isAvailable w (primaryProvider s0) \<and> supportsStreaming (primaryProvider s0) then
           (case provider_streamResponse w (primaryProvider s0) callbacks messages options s0 of
              (Inr u, calls, s1) \<Rightarrow> (Inr (), calls, s1)
            | (Inl error, calls, s1) \<Rightarrow>
                (case invoke callbacks (onError (as_Error error ''Streaming failed'')) calls of
                   (Inr u, calls1) \<Rightarrow> fallback calls1 s1
                 | (Inl error', calls1) \<Rightarrow> (Inl error', calls1, s1)))
         else fallback [] s0)"

definition getCurrentProvider :: "state \<Rightarrow> provider" where
  "getCurrentProvider s = primaryProvider s"

definition switchProvider :: "world \<Rightarrow> provider_type \<Rightarrow> state \<Rightarrow> state" where
  "switchProvider w type s =
     (let (p, cache) = getProvider w type (providers s)
      in s\<lparr>providers := cache, primaryProvider := p\<rparr>)"

subsection \<open>Observations\<close>

text \<open>The providers whose \<^verbatim>\<open>generateResponse\<close> was entered between state \<open>s\<close> and a
  later state \<open>s'\<close>, in order.\<close>

definition attempted :: "state \<Rightarrow> state \<Rightarrow> provider list" where
  "attempted s s' = drop (length (invoked s)) (invoked s')"


text \<open>The texts that the loop of a provider's \<^verbatim>\<open>streamResponse\<close> accumulates over the
  words, from index \<open>i\<close> with the text accumulated so far.\<close>

fun emit :: "string list \<Rightarrow> nat \<Rightarrow> string \<Rightarrow> string list" where
  "emit [] i accumulated = []"
| "emit (word # words) i accumulated =
     (let accumulated' = accumulated @ (if i > 0 then '' '' else []) @ word
      in accumulated' # emit words (Suc i) accumulated')"

text \<open>Every one of the calls \<open>calls\<close>, made in this order on \<open>callbacks\<close>, returned: none
  threw.\<close>

definition returned :: "StreamingCallback \<Rightarrow> callback list \<Rightarrow> bool" where
  "returned callbacks calls =
     list_all (\<lambda>k. callbacks (take k calls) (calls ! k) = None) [0..<length calls]"

text \<open>How the call \<open>c\<close>, made after \<open>calls\<close>, settles a promise that ends with it.\<close>

definition settle :: "StreamingCallback \<Rightarrow> callback list \<Rightarrow> callback \<Rightarrow> thrown + unit" where
  "settle cb calls c = (case cb calls c of None \<Rightarrow> Inr () | Some e \<Rightarrow> Inl e)"

subsection \<open>Example worlds\<close>

text \<open>Flag states, vendors and requests used to run the definitions on concrete inputs.\<close>

definition flag_state :: "bool \<Rightarrow> bool \<Rightarrow> bool \<Rightarrow> FeatureFlags \<Rightarrow> bool" where
  "flag_state strict loc strm f =
     (case f of
        STRICT_LOCAL_MODE \<Rightarrow> strict
      | LOCAL_LLM \<Rightarrow> loc
      | STREAMING_RESPONSES \<Rightarrow> strm
      | _ \<Rightarrow> False)"

definition greeting :: api_response where
  "greeting = \<lparr>api_content = ''bonjour tout le monde'', api_usage = None\<rparr>"

text \<open>The vendors in \<open>down\<close> fail after 100 ms, the others answer after 200 ms.\<close>

definition vendors_down :: "provider list \<Rightarrow> provider \<Rightarrow> AIMessage list \<Rightarrow> api_request \<Rightarrow> nat \<Rightarrow> nat \<times> (thrown + api_response)" where
  "vendors_down down p msgs req n =
     (if p \<in> set down then (100, Inl (Error ''503'')) else (200, Inr greeting))"

definition world_of :: "bool \<Rightarrow> bool \<Rightarrow> bool \<Rightarrow> provider list \<Rightarrow> world" where
  "world_of strict loc strm down =
     \<lparr>isEnabled = flag_state strict loc strm, vendor = vendors_down down, random = (\<lambda>n. n)\<rparr>"

definition plain :: LLMOptions where
  "plain = \<lparr>maxTokens = Some 1024, temperature = Some 0.7, model = None,
            streaming = None, systemPrompt = None\<rparr>"

text \<open>Options that ask for temperature 0.\<close>

definition deterministic :: LLMOptions where
  "deterministic = \<lparr>maxTokens = Some 256, temperature = Some 0, model = None,
                    streaming = None, systemPrompt = None\<rparr>"

text \<open>Callbacks that always return, and callbacks whose \<^verbatim>\<open>onComplete\<close> throws.\<close>

definition silent :: StreamingCallback where
  "silent calls c = None"

definition brittle :: StreamingCallback where
  "brittle calls c =
     (case c of onComplete response \<Rightarrow> Some (Error ''render failed'') | _ \<Rightarrow> None)"

definition hello :: "AIMessage list" where
  "hello = [\<lparr>role = user, content = ''allo''\<rparr>]"

text \<open>The accessor at time \<open>t\<close>, after three failures of Anthropic in a row, the last
  one at time 1000.\<close>

definition tripped :: "int \<Rightarrow> state" where
  "tripped t = (new_ResilientLLMService t)
     \<lparr>failureCount := [''Anthropic'' \<mapsto> 3], lastFailureTime := [''Anthropic'' \<mapsto> 1000]\<rparr>"

section \<open>Properties\<close>

subsection \<open>Resolution of \<open>auto\<close>\<close>

text \<open>
  C5. Whatever the factory's cache holds, a request for \<open>auto\<close> is answered from the
  current flag state by a priority list: strict local mode gives the local provider
  whatever the other flags are, otherwise the local-model flag gives the local provider,
  otherwise the answer is the Anthropic provider. Nothing of an earlier resolution is
  kept: a second request, made under another flag state \<open>w'\<close> with the cache the first
  one left, is answered from \<open>w'\<close> alone.
\<close>

theorem auto_resolution_priority:
  "fst (getProvider w auto cache) =
     (if isEnabled w STRICT_LOCAL_MODE then Local
      else if isEnabled w LOCAL_LLM then Local
      else Anthropic)
   \<and> fst (getProvider w' auto (snd (getProvider w auto cache))) =
     (if isEnabled w' STRICT_LOCAL_MODE then Local
      else if isEnabled w' LOCAL_LLM then Local
      else Anthropic)"
  by simp

theorem auto_resolution_priority_witness:
  "fst (getProvider (world_of True False True []) auto {}) = Local
   \<and> fst (getProvider (world_of False False True []) auto
            (snd (getProvider (world_of True False True []) auto {}))) = Anthropic"
  using auto_resolution_priority [of "world_of True False True []" "{}" "world_of False False True []"]
  by (simp add: world_of_def flag_state_def)

subsection \<open>Basic facts\<close>

lemma name_inject [simp]: "name p = name q \<longleftrightarrow> p = q"
  by (cases p; cases q) simp_all

lemma getProvider_auto:
  "fst (getProvider w auto cache) =
     (if isEnabled w STRICT_LOCAL_MODE then Local else if isEnabled w LOCAL_LLM then Local else Anthropic)"
  by simp

lemma initializeProviders_fields:
  "primaryProvider (initializeProviders w s) = fst (getProvider w auto (providers s))"
  "fallbackProviders (initializeProviders w s) = [Anthropic, OpenAI]"
  "now (initializeProviders w s) = now s"
  "invoked (initializeProviders w s) = invoked s"
  "sent (initializeProviders w s) = sent s"
  "failureCount (initializeProviders w s) = failureCount s"
  "lastFailureTime (initializeProviders w s) = lastFailureTime s"
  by (simp_all add: initializeProviders_def split: prod.splits)

lemma initializeProviders_circuit:
  "failures (initializeProviders w s) n = failures s n"
  "lastFailure (initializeProviders w s) n = lastFailure s n"
  "shouldAttemptProvider n (initializeProviders w s) = shouldAttemptProvider n s"
  by (simp_all add: failures_def lastFailure_def shouldAttemptProvider_def initializeProviders_fields)

text \<open>What one call of a provider's \<^verbatim>\<open>generateResponse\<close> does to the state.\<close>

lemma provider_generateResponse_state:
  assumes "provider_generateResponse w p messages options s = (r, s1)"
  shows "invoked s1 = invoked s @ [p]"
    and "now s \<le> now s1"
    and "failureCount s1 = failureCount s"
    and "lastFailureTime s1 = lastFailureTime s"
    and "primaryProvider s1 = primaryProvider s"
    and "fallbackProviders s1 = fallbackProviders s"
  using assms
  by (cases p; auto simp: provider_generateResponse_def OpenAI_generateResponse_def
      Anthropic_generateResponse_def Local_generateResponse_def Let_def
      split: prod.splits sum.splits if_splits)+

lemma provider_generateResponse_provider:
  assumes "provider_generateResponse w p messages options s = (Inr response, s1)"
  shows "resp_provider response = name p"
  using assms
  by (cases p; auto simp: provider_generateResponse_def OpenAI_generateResponse_def
      Anthropic_generateResponse_def Local_generateResponse_def Let_def
      split: prod.splits sum.splits if_splits)

lemma Local_disabled:
  "\<not> isEnabled w LOCAL_LLM \<Longrightarrow>
     fst (Local_generateResponse w messages options s) = Inl (Error ''Local LLM is not enabled'')"
  by (simp add: Local_generateResponse_def Let_def)

lemma Local_enabled:
  "isEnabled w LOCAL_LLM \<Longrightarrow> \<exists>response. fst (Local_generateResponse w messages options s) = Inr response"
  by (simp add: Local_generateResponse_def Let_def)


text \<open>What the \<^verbatim>\<open>try\<close> block for one candidate does.\<close>

lemma attempt_unavailable:
  "\<not> isAvailable w p \<Longrightarrow> attempt w p messages options s = (None, s)"
  by (simp add: attempt_def)

lemma attempt_available:
  assumes "isAvailable w p"
  shows "attempt w p messages options s =
     (case provider_generateResponse w p messages options s of
        (Inr response, s1) \<Rightarrow> (Some response, recordSuccess (name p) s1)
      | (Inl error, s1) \<Rightarrow> (None, recordFailure (name p) s1))"
  using assms by (simp add: attempt_def)

lemma recordSuccess_fields:
  "now (recordSuccess n s) = now s"
  "invoked (recordSuccess n s) = invoked s"
  "fallbackProviders (recordSuccess n s) = fallbackProviders s"
  "primaryProvider (recordSuccess n s) = primaryProvider s"
  "failureCount (recordSuccess n s) = (failureCount s)(n \<mapsto> 0)"
  "lastFailureTime (recordSuccess n s) = (lastFailureTime s)(n := None)"
  by (simp_all add: recordSuccess_def)

lemma recordFailure_fields:
  "now (recordFailure n s) = now s"
  "invoked (recordFailure n s) = invoked s"
  "fallbackProviders (recordFailure n s) = fallbackProviders s"
  "primaryProvider (recordFailure n s) = primaryProvider s"
  "failureCount (recordFailure n s) = (failureCount s)(n \<mapsto> failures s n + 1)"
  "lastFailureTime (recordFailure n s) = (lastFailureTime s)(n \<mapsto> now s)"
  by (simp_all add: recordFailure_def Let_def)

lemma attempt_state:
  assumes "attempt w p messages options s = (r, s1)"
  shows "invoked s1 = invoked s @ (if isAvailable w p then [p] else [])"
    and "now s \<le> now s1"
    and "fallbackProviders s1 = fallbackProviders s"
    and "primaryProvider s1 = primaryProvider s"
    and "n \<noteq> name p \<Longrightarrow> failureCount s1 n = failureCount s n"
    and "n \<noteq> name p \<Longrightarrow> lastFailureTime s1 n = lastFailureTime s n"
proof -
  show "invoked s1 = invoked s @ (if isAvailable w p then [p] else [])"
    using assms
    by (auto simp: attempt_def recordSuccess_fields recordFailure_fields
        split: if_splits prod.splits sum.splits dest: provider_generateResponse_state(1))
  show "now s \<le> now s1"
    using assms
    by (auto simp: attempt_def recordSuccess_fields recordFailure_fields
        split: if_splits prod.splits sum.splits dest: provider_generateResponse_state(2))
  show "fallbackProviders s1 = fallbackProviders s"
    using assms
    by (auto simp: attempt_def recordSuccess_fields recordFailure_fields
        split: if_splits prod.splits sum.splits dest: provider_generateResponse_state(6))
  show "primaryProvider s1 = primaryProvider s"
    using assms
    by (auto simp: attempt_def recordSuccess_fields recordFailure_fields
        split: if_splits prod.splits sum.splits dest: provider_generateResponse_state(5))
  show "n \<noteq> name p \<Longrightarrow> failureCount s1 n = failureCount s n"
    using assms
    by (auto simp: attempt_def recordSuccess_fields recordFailure_fields
        split: if_splits prod.splits sum.splits dest: provider_generateResponse_state(3))
  show "n \<noteq> name p \<Longrightarrow> lastFailureTime s1 n = lastFailureTime s n"
    using assms
    by (auto simp: attempt_def recordSuccess_fields recordFailure_fields
        split: if_splits prod.splits sum.splits dest: provider_generateResponse_state(4))
qed

lemma attempt_success:
  assumes "attempt w p messages options s = (Some response, s1)"
  shows "isAvailable w p"
    and "resp_provider response = name p"
    and "failureCount s1 (name p) = Some 0"
    and "lastFailureTime s1 (name p) = None"
  using assms
  by (auto simp: attempt_def recordSuccess_fields
      split: if_splits prod.splits sum.splits dest: provider_generateResponse_provider)

lemma attempt_failure:
  assumes "attempt w p messages options s = (None, s1)" and "isAvailable w p"
  shows "failureCount s1 (name p) = Some (failures s (name p) + 1)"
    and "lastFailureTime s1 (name p) = Some (now s1)"
  using assms
  by (auto simp: attempt_def recordFailure_fields failures_def
      split: if_splits prod.splits sum.splits dest: provider_generateResponse_state(3))

lemma tryFallbacks_now:
  "tryFallbacks w ps messages options s = (r, s') \<Longrightarrow> now s \<le> now s'"
proof (induction ps arbitrary: s)
  case Nil
  then show ?case by simp
next
  case (Cons p ps)
  show ?case
  proof (cases "shouldAttemptProvider (name p) s")
    case False
    with Cons show ?thesis by simp
  next
    case True
    obtain a s1 where a: "attempt w p messages options s = (a, s1)"
      by (cases "attempt w p messages options s")
    have le: "now s \<le> now s1" using attempt_state(2) [OF a] .
    show ?thesis
    proof (cases a)
      case None
      with Cons.prems True a have "tryFallbacks w ps messages options s1 = (r, s')" by simp
      from Cons.IH [OF this] le show ?thesis by simp
    next
      case (Some response)
      with Cons.prems True a have "s' = s1" by simp
      with le show ?thesis by simp
    qed
  qed
qed


text \<open>A provider whose circuit is open and not cooled down by the end of the loop is
  passed over by the loop, whatever happens to the other candidates.\<close>

lemma tryFallbacks_open:
  assumes "tryFallbacks w ps messages options s = (r, s')"
    and "CIRCUIT_BREAKER_THRESHOLD \<le> failures s (name P)"
    and "now s' - lastFailure s (name P) \<le> CIRCUIT_BREAKER_TIMEOUT"
  shows "count_list (invoked s') P = count_list (invoked s) P
       \<and> failureCount s' (name P) = failureCount s (name P)
       \<and> lastFailureTime s' (name P) = lastFailureTime s (name P)"
  using assms
proof (induction ps arbitrary: s)
  case Nil
  then show ?case by simp
next
  case (Cons p ps)
  have mono: "now s \<le> now s'" using tryFallbacks_now [OF Cons.prems(1)] .
  have closed: "\<not> shouldAttemptProvider (name P) s"
    using Cons.prems(2,3) mono by (simp add: shouldAttemptProvider_def)
  show ?case
  proof (cases "shouldAttemptProvider (name p) s")
    case False
    with Cons.prems have "tryFallbacks w ps messages options s = (r, s')" by simp
    from Cons.IH [OF this Cons.prems(2,3)] show ?thesis .
  next
    case True
    with closed have ne: "p \<noteq> P" by auto
    then have nne: "name P \<noteq> name p" by simp
    obtain a s1 where a: "attempt w p messages options s = (a, s1)"
      by (cases "attempt w p messages options s")
    have inv: "count_list (invoked s1) P = count_list (invoked s) P"
      using attempt_state(1) [OF a] ne by simp
    have fc: "failureCount s1 (name P) = failureCount s (name P)"
      using attempt_state(5) [OF a nne] .
    have lf: "lastFailureTime s1 (name P) = lastFailureTime s (name P)"
      using attempt_state(6) [OF a nne] .
    show ?thesis
    proof (cases a)
      case (Some response)
      with Cons.prems(1) True a have "s' = s1" by simp
      with inv fc lf show ?thesis by simp
    next
      case None
      with Cons.prems(1) True a have rest: "tryFallbacks w ps messages options s1 = (r, s')" by simp
      have "CIRCUIT_BREAKER_THRESHOLD \<le> failures s1 (name P)"
        using Cons.prems(2) fc by (simp add: failures_def)
      moreover have "now s' - lastFailure s1 (name P) \<le> CIRCUIT_BREAKER_TIMEOUT"
        using Cons.prems(3) lf by (simp add: lastFailure_def)
      ultimately show ?thesis using Cons.IH [OF rest] inv fc lf by simp
    qed
  qed
qed

text \<open>\<^verbatim>\<open>generateResponse\<close> is the loop run on the primary followed by the fallbacks.\<close>

lemma generateResponse_as_loop:
  "generateResponse w messages options s =
     tryFallbacks w (fst (getProvider w auto (providers s)) # [Anthropic, OpenAI]) messages options
       (initializeProviders w s)"
proof -
  let ?s0 = "initializeProviders w s"
  let ?p = "primaryProvider ?s0"
  have p: "?p = fst (getProvider w auto (providers s))"
    by (rule initializeProviders_fields(1))
  show ?thesis
  proof (cases "shouldAttemptProvider (name ?p) ?s0")
    case False
    then show ?thesis
      unfolding generateResponse_def Let_def p [symmetric]
      by (simp add: initializeProviders_fields(2))
  next
    case True
    obtain a s1 where a: "attempt w ?p messages options ?s0 = (a, s1)"
      by (cases "attempt w ?p messages options ?s0")
    have fb: "fallbackProviders s1 = [Anthropic, OpenAI]"
      using attempt_state(3) [OF a] by (simp add: initializeProviders_fields(2))
    show ?thesis
      unfolding generateResponse_def Let_def p [symmetric]
      using True a fb by (cases a) simp_all
  qed
qed


lemma attempted_append: "invoked s' = invoked s @ ys \<Longrightarrow> attempted s s' = ys"
  by (simp add: attempted_def)

lemma tryFallbacks_trace:
  "tryFallbacks w ps messages options s = (r, s') \<Longrightarrow>
     \<exists>ys. invoked s' = invoked s @ ys \<and> subseq ys ps"
proof (induction ps arbitrary: s)
  case Nil
  then show ?case by simp
next
  case (Cons p ps)
  show ?case
  proof (cases "shouldAttemptProvider (name p) s")
    case False
    with Cons.prems have "tryFallbacks w ps messages options s = (r, s')" by simp
    from Cons.IH [OF this] show ?thesis by auto
  next
    case True
    obtain a s1 where a: "attempt w p messages options s = (a, s1)"
      by (cases "attempt w p messages options s")
    define zs where "zs = (if isAvailable w p then [p] else [])"
    have inv: "invoked s1 = invoked s @ zs"
      using attempt_state(1) [OF a] by (simp add: zs_def)
    show ?thesis
    proof (cases a)
      case (Some response)
      with Cons.prems True a have "s' = s1" by simp
      with inv have "invoked s' = invoked s @ zs \<and> subseq zs (p # ps)"
        by (simp add: zs_def)
      then show ?thesis by blast
    next
      case None
      with Cons.prems True a have "tryFallbacks w ps messages options s1 = (r, s')" by simp
      from Cons.IH [OF this] obtain ys where ys: "invoked s' = invoked s1 @ ys" "subseq ys ps"
        by blast
      have "invoked s' = invoked s @ (zs @ ys) \<and> subseq (zs @ ys) (p # ps)"
        using ys inv by (auto simp: zs_def)
      then show ?thesis by blast
    qed
  qed
qed

text \<open>When the loop ends in the \<^verbatim>\<open>throw\<close>, every provider it called failed, and each
  failure was counted.\<close>

lemma tryFallbacks_exhausted:
  "tryFallbacks w ps messages options s = (Inl e, s') \<Longrightarrow>
     e = Error ''All LLM providers are currently unavailable''
     \<and> failures s' (name P) = failures s (name P) + count_list (attempted s s') P"
proof (induction ps arbitrary: s)
  case Nil
  then show ?case by (simp add: attempted_def)
next
  case (Cons p ps)
  show ?case
  proof (cases "shouldAttemptProvider (name p) s")
    case False
    with Cons.prems have "tryFallbacks w ps messages options s = (Inl e, s')" by simp
    from Cons.IH [OF this] show ?thesis .
  next
    case True
    obtain a s1 where a: "attempt w p messages options s = (a, s1)"
      by (cases "attempt w p messages options s")
    from Cons.prems True a have none: "a = None" by (cases a) simp_all
    with Cons.prems True a have rest: "tryFallbacks w ps messages options s1 = (Inl e, s')" by simp
    from tryFallbacks_trace [OF rest] obtain ys where ys: "invoked s' = invoked s1 @ ys"
      by blast
    define zs where "zs = (if isAvailable w p then [p] else [])"
    have inv: "invoked s1 = invoked s @ zs"
      using attempt_state(1) [OF a] by (simp add: zs_def)
    have att: "attempted s s' = zs @ attempted s1 s'"
      using ys inv by (simp add: attempted_def)
    have step: "failures s1 (name P) = failures s (name P) + count_list zs P"
    proof (cases "isAvailable w p")
      case False
      then have "s1 = s" using a by (simp add: attempt_unavailable)
      with False show ?thesis by (simp add: zs_def)
    next
      case avail: True
      show ?thesis
      proof (cases "P = p")
        case True
        with attempt_failure(1) [OF a [unfolded none] avail] avail show ?thesis
          by (simp add: zs_def failures_def)
      next
        case False
        then have "name P \<noteq> name p" by simp
        from attempt_state(5) [OF a this] False avail show ?thesis
          by (simp add: zs_def failures_def)
      qed
    qed
    from Cons.IH [OF rest] step att show ?thesis
      by simp
  qed
qed

text \<open>When the loop returns a response, it is the response of the provider called last,
  whose circuit has been reset.\<close>

lemma tryFallbacks_served:
  "tryFallbacks w ps messages options s = (Inr response, s') \<Longrightarrow>
     attempted s s' \<noteq> []
     \<and> resp_provider response = name (last (attempted s s'))
     \<and> last (attempted s s') \<in> set ps
     \<and> isAvailable w (last (attempted s s'))
     \<and> failureCount s' (name (last (attempted s s'))) = Some 0
     \<and> lastFailureTime s' (name (last (attempted s s'))) = None"
proof (induction ps arbitrary: s)
  case Nil
  then show ?case by simp
next
  case (Cons p ps)
  show ?case
  proof (cases "shouldAttemptProvider (name p) s")
    case False
    with Cons.prems have "tryFallbacks w ps messages options s = (Inr response, s')" by simp
    from Cons.IH [OF this] show ?thesis by simp
  next
    case True
    obtain a s1 where a: "attempt w p messages options s = (a, s1)"
      by (cases "attempt w p messages options s")
    define zs where "zs = (if isAvailable w p then [p] else [])"
    have inv: "invoked s1 = invoked s @ zs"
      using attempt_state(1) [OF a] by (simp add: zs_def)
    show ?thesis
    proof (cases a)
      case (Some r)
      with Cons.prems True a have eq: "s' = s1" "r = response" by simp_all
      from attempt_success [OF a [unfolded Some eq(2)]] inv eq(1)
      show ?thesis by (auto simp: attempted_def zs_def)
    next
      case None
      with Cons.prems True a have rest: "tryFallbacks w ps messages options s1 = (Inr response, s')"
        by simp
      from tryFallbacks_trace [OF rest] obtain ys where ys: "invoked s' = invoked s1 @ ys"
        by blast
      have att: "attempted s s' = zs @ attempted s1 s'"
        using ys inv by (simp add: attempted_def)
      from Cons.IH [OF rest] att show ?thesis by simp
    qed
  qed
qed


lemma tryFallbacks_attempts_head:
  assumes "shouldAttemptProvider (name P) s" and "isAvailable w P"
  shows "\<exists>rest. attempted s (snd (tryFallbacks w (P # ps) messages options s)) = P # rest"
proof -
  obtain r s' where run: "tryFallbacks w (P # ps) messages options s = (r, s')"
    by (cases "tryFallbacks w (P # ps) messages options s")
  obtain a s1 where a: "attempt w P messages options s = (a, s1)"
    by (cases "attempt w P messages options s")
  have inv: "invoked s1 = invoked s @ [P]"
    using attempt_state(1) [OF a] assms(2) by simp
  show ?thesis
  proof (cases a)
    case (Some response)
    with run assms(1) a have "s' = s1" by simp
    with inv run show ?thesis by (simp add: attempted_def)
  next
    case None
    with run assms(1) a have "tryFallbacks w ps messages options s1 = (r, s')" by simp
    from tryFallbacks_trace [OF this] obtain ys where "invoked s' = invoked s1 @ ys" by blast
    with inv run show ?thesis by (simp add: attempted_def)
  qed
qed

text \<open>A provider whose circuit is open and not cooled down by the end of a request is
  not attempted in that request.\<close>

lemma generateResponse_open:
  assumes "generateResponse w messages options s = (r, s')"
    and "3 \<le> failures s (name P)"
    and "now s' - lastFailure s (name P) \<le> 60000"
  shows "P \<notin> set (attempted s s')
       \<and> failureCount s' (name P) = failureCount s (name P)
       \<and> lastFailureTime s' (name P) = lastFailureTime s (name P)"
proof -
  let ?s0 = "initializeProviders w s"
  let ?cs = "fst (getProvider w auto (providers s)) # [Anthropic, OpenAI]"
  have run: "tryFallbacks w ?cs messages options ?s0 = (r, s')"
    using assms(1) by (simp add: generateResponse_as_loop)
  have "CIRCUIT_BREAKER_THRESHOLD \<le> failures ?s0 (name P)"
    using assms(2) by (simp add: initializeProviders_circuit CIRCUIT_BREAKER_THRESHOLD_def)
  moreover have "now s' - lastFailure ?s0 (name P) \<le> CIRCUIT_BREAKER_TIMEOUT"
    using assms(3) by (simp add: initializeProviders_circuit CIRCUIT_BREAKER_TIMEOUT_def)
  ultimately have keep: "count_list (invoked s') P = count_list (invoked ?s0) P
       \<and> failureCount s' (name P) = failureCount ?s0 (name P)
       \<and> lastFailureTime s' (name P) = lastFailureTime ?s0 (name P)"
    by (rule tryFallbacks_open [OF run])
  from tryFallbacks_trace [OF run] obtain ys where ys: "invoked s' = invoked s @ ys"
    by (auto simp: initializeProviders_fields)
  with keep have "count_list ys P = 0"
    by (simp add: initializeProviders_fields)
  then have "P \<notin> set ys" by (simp add: count_list_0_iff)
  with ys have "P \<notin> set (attempted s s')" by (simp add: attempted_def)
  with keep show ?thesis by (simp add: initializeProviders_fields)
qed

subsection \<open>The circuit breaker\<close>

text \<open>
  C1. A provider is attempted only when its circuit is closed or cooled down.
  \<^item> The circuit check lets provider \<open>P\<close> through exactly when it has fewer than 3
    consecutive failures or more than 60000 ms have passed since its last recorded failure.
  \<^item> A provider with at least 3 failures whose 60000 ms have not passed by the end of a
    request is not attempted anywhere in that request, and its circuit state is untouched.
  \<^item> Once more than 60000 ms have passed, an available provider is attempted whatever its
    failure count is: as the primary of a request, and at any position of the loop over
    the candidates.
  \<^item> At a position of the loop, a provider with at least 3 failures whose 60000 ms have
    not passed is stepped over.
  \<^item> When the attempt of a provider with at least 3 failures fails, the failure is
    counted and stamped with the current time, and the circuit check stops the provider
    again.
\<close>

theorem circuit_breaker_gate:
  "(shouldAttemptProvider (name P) s \<longleftrightarrow>
      failures s (name P) < 3 \<or> now s - lastFailure s (name P) > 60000)
   \<and> (generateResponse w messages options s = (r, s') \<and> 3 \<le> failures s (name P)
        \<and> now s' - lastFailure s (name P) \<le> 60000 \<longrightarrow>
      P \<notin> set (attempted s s')
      \<and> failureCount s' (name P) = failureCount s (name P)
      \<and> lastFailureTime s' (name P) = lastFailureTime s (name P))
   \<and> (fst (getProvider w auto (providers s)) = P \<and> isAvailable w P
        \<and> now s - lastFailure s (name P) > 60000 \<longrightarrow>
      (\<exists>rest. attempted s (snd (generateResponse w messages options s)) = P # rest))
   \<and> (isAvailable w P \<and> now s - lastFailure s (name P) > 60000 \<longrightarrow>
      (\<exists>rest. attempted s (snd (tryFallbacks w (P # ps) messages options s)) = P # rest))
   \<and> (3 \<le> failures s (name P) \<and> now s - lastFailure s (name P) \<le> 60000 \<longrightarrow>
      tryFallbacks w (P # ps) messages options s = tryFallbacks w ps messages options s)
   \<and> (3 \<le> failures s (name P) \<and> isAvailable w P
        \<and> attempt w P messages options s = (None, s1) \<longrightarrow>
      failures s1 (name P) = failures s (name P) + 1
      \<and> lastFailure s1 (name P) = now s1
      \<and> \<not> shouldAttemptProvider (name P) s1)"
proof (intro conjI impI)
  show gate: "shouldAttemptProvider (name P) s \<longleftrightarrow>
      failures s (name P) < 3 \<or> now s - lastFailure s (name P) > 60000"
    by (simp add: shouldAttemptProvider_def CIRCUIT_BREAKER_THRESHOLD_def CIRCUIT_BREAKER_TIMEOUT_def)
  {
    assume h: "generateResponse w messages options s = (r, s') \<and> 3 \<le> failures s (name P)
        \<and> now s' - lastFailure s (name P) \<le> 60000"
    then have "generateResponse w messages options s = (r, s')"
      and "3 \<le> failures s (name P)" and "now s' - lastFailure s (name P) \<le> 60000"
      by simp_all
    from generateResponse_open [OF this]
    show "P \<notin> set (attempted s s')"
      and "failureCount s' (name P) = failureCount s (name P)"
      and "lastFailureTime s' (name P) = lastFailureTime s (name P)"
      by simp_all
  }
  {
    assume h: "fst (getProvider w auto (providers s)) = P \<and> isAvailable w P
        \<and> now s - lastFailure s (name P) > 60000"
    let ?s0 = "initializeProviders w s"
    have "shouldAttemptProvider (name P) ?s0"
      using h gate by (simp add: initializeProviders_circuit)
    from tryFallbacks_attempts_head [OF this, of w "[Anthropic, OpenAI]" messages options] h
    show "\<exists>rest. attempted s (snd (generateResponse w messages options s)) = P # rest"
      by (simp add: generateResponse_as_loop attempted_def initializeProviders_fields)
  }
  {
    assume h: "isAvailable w P \<and> now s - lastFailure s (name P) > 60000"
    then have "shouldAttemptProvider (name P) s" using gate by simp
    from tryFallbacks_attempts_head [OF this] h
    show "\<exists>rest. attempted s (snd (tryFallbacks w (P # ps) messages options s)) = P # rest"
      by simp
  }
  {
    assume h: "3 \<le> failures s (name P) \<and> now s - lastFailure s (name P) \<le> 60000"
    then have "\<not> shouldAttemptProvider (name P) s" using gate by simp
    then show "tryFallbacks w (P # ps) messages options s = tryFallbacks w ps messages options s"
      by simp
  }
  {
    assume h: "3 \<le> failures s (name P) \<and> isAvailable w P
        \<and> attempt w P messages options s = (None, s1)"
    then have a: "attempt w P messages options s = (None, s1)" and avail: "isAvailable w P"
      by simp_all
    from attempt_failure [OF a avail]
    show count: "failures s1 (name P) = failures s (name P) + 1"
      and last: "lastFailure s1 (name P) = now s1"
      by (simp_all add: failures_def lastFailure_def)
    from h count last show "\<not> shouldAttemptProvider (name P) s1"
      by (simp add: shouldAttemptProvider_def CIRCUIT_BREAKER_THRESHOLD_def
          CIRCUIT_BREAKER_TIMEOUT_def)
  }
qed


theorem circuit_breaker_gate_witness:
  "3 \<le> failures (tripped 30000) (name Anthropic)
   \<and> now (snd (generateResponse (world_of False False True []) hello None (tripped 30000)))
        - lastFailure (tripped 30000) (name Anthropic) \<le> 60000
   \<and> Anthropic \<notin> set (attempted (tripped 30000)
        (snd (generateResponse (world_of False False True []) hello None (tripped 30000))))
   \<and> fst (getProvider (world_of False False True []) auto (providers (tripped 70000))) = Anthropic
   \<and> isAvailable (world_of False False True []) Anthropic
   \<and> now (tripped 70000) - lastFailure (tripped 70000) (name Anthropic) > 60000
   \<and> (\<exists>rest. attempted (tripped 70000)
         (snd (generateResponse (world_of False False True []) hello None (tripped 70000)))
        = Anthropic # rest)
   \<and> fst (attempt (world_of False False True [Anthropic]) Anthropic hello None (tripped 70000)) = None
   \<and> failures (snd (attempt (world_of False False True [Anthropic]) Anthropic hello None
        (tripped 70000))) (name Anthropic) = 4
   \<and> \<not> shouldAttemptProvider (name Anthropic)
        (snd (attempt (world_of False False True [Anthropic]) Anthropic hello None (tripped 70000)))"
proof -
  let ?w = "world_of False False True []"
  let ?run = "generateResponse ?w hello None (tripped 30000)"
  have run: "?run = (fst ?run, snd ?run)" by simp
  have a: "3 \<le> failures (tripped 30000) (name Anthropic)" by code_simp
  have b: "now (snd ?run) - lastFailure (tripped 30000) (name Anthropic) \<le> 60000" by code_simp
  have c: "fst (getProvider ?w auto (providers (tripped 70000))) = Anthropic" by code_simp
  have d: "isAvailable ?w Anthropic" by code_simp
  have e: "now (tripped 70000) - lastFailure (tripped 70000) (name Anthropic) > 60000" by code_simp
  have skipped: "Anthropic \<notin> set (attempted (tripped 30000) (snd ?run))"
    using circuit_breaker_gate [of Anthropic "tripped 30000" ?w hello None "fst ?run" "snd ?run"]
      run a b by blast
  have tried: "\<exists>rest. attempted (tripped 70000)
      (snd (generateResponse ?w hello None (tripped 70000))) = Anthropic # rest"
    using circuit_breaker_gate [of Anthropic "tripped 70000" ?w hello None] c d e by blast
  let ?v = "world_of False False True [Anthropic]"
  let ?att = "attempt ?v Anthropic hello None (tripped 70000)"
  have f: "fst ?att = None" by code_simp
  then have att_eq: "?att = (None, snd ?att)" by (simp add: prod_eq_iff)
  have g: "3 \<le> failures (tripped 70000) (name Anthropic)" by code_simp
  have g': "failures (tripped 70000) (name Anthropic) = 3" by code_simp
  have h: "isAvailable ?v Anthropic" by code_simp
  have reopened: "failures (snd ?att) (name Anthropic) = failures (tripped 70000) (name Anthropic) + 1
      \<and> \<not> shouldAttemptProvider (name Anthropic) (snd ?att)"
    using circuit_breaker_gate [of Anthropic "tripped 70000" ?v hello None _ _ _ "snd ?att"]
      g h att_eq by blast
  with g' have four: "failures (snd ?att) (name Anthropic) = 4" by simp
  from a b c d e skipped tried f four reopened show ?thesis by blast
qed

subsection \<open>The candidates of a request\<close>

lemma generateResponse_trace:
  "subseq (attempted s (snd (generateResponse w messages options s)))
     (fst (getProvider w auto (providers s)) # [Anthropic, OpenAI])"
proof -
  let ?s0 = "initializeProviders w s"
  let ?cs = "fst (getProvider w auto (providers s)) # [Anthropic, OpenAI]"
  obtain r s' where run: "tryFallbacks w ?cs messages options ?s0 = (r, s')"
    by (cases "tryFallbacks w ?cs messages options ?s0")
  from tryFallbacks_trace [OF run] obtain ys where "invoked s' = invoked s @ ys" "subseq ys ?cs"
    by (auto simp: initializeProviders_fields)
  with run show ?thesis
    by (simp add: generateResponse_as_loop attempted_def)
qed

text \<open>
  C2 does not hold of the code. The candidates of a request are the primary followed by the
  fallbacks, and the fallbacks always start with Anthropic. With strict local mode and the
  local model off, \<open>auto\<close> resolves to Anthropic, so the candidates are Anthropic,
  Anthropic, OpenAI. When the Anthropic vendor is down, one request of a new accessor
  attempts Anthropic as the primary, attempts it again as the first fallback and then
  OpenAI; the one request takes the failure count of Anthropic from 0 to 2, and a second
  such request leaves its circuit open.
\<close>

theorem anthropic_attempted_twice:
  "attempted (new_ResilientLLMService 1000)
     (snd (generateResponse (world_of False False True [Anthropic]) hello None
        (new_ResilientLLMService 1000)))
   = [Anthropic, Anthropic, OpenAI]
   \<and> failures (new_ResilientLLMService 1000) (name Anthropic) = 0
   \<and> failures
       (snd (generateResponse (world_of False False True [Anthropic]) hello None
          (new_ResilientLLMService 1000))) (name Anthropic) = 2
   \<and> primaryProvider (initializeProviders (world_of False False True [Anthropic])
        (new_ResilientLLMService 1000))
      # fallbackProviders (initializeProviders (world_of False False True [Anthropic])
          (new_ResilientLLMService 1000))
      = [Anthropic, Anthropic, OpenAI]
   \<and> \<not> shouldAttemptProvider (name Anthropic)
        (snd (generateResponse (world_of False False True [Anthropic]) hello None
          (snd (generateResponse (world_of False False True [Anthropic]) hello None
             (new_ResilientLLMService 1000)))))"
  by code_simp

subsection \<open>Exhausting the candidates\<close>

lemma attempt_success_call:
  assumes "attempt w p messages options s = (Some response, s1)"
  shows "\<exists>s2. provider_generateResponse w p messages options s = (Inr response, s2)"
  using assms
  by (auto simp: attempt_def split: if_splits prod.splits sum.splits)

lemma tryFallbacks_served_call:
  "tryFallbacks w ps messages options s = (Inr response, s') \<Longrightarrow>
     \<exists>s1 s2. provider_generateResponse w (last (attempted s s')) messages options s1
        = (Inr response, s2)"
proof (induction ps arbitrary: s)
  case Nil
  then show ?case by simp
next
  case (Cons p ps)
  show ?case
  proof (cases "shouldAttemptProvider (name p) s")
    case False
    with Cons.prems have "tryFallbacks w ps messages options s = (Inr response, s')" by simp
    from Cons.IH [OF this] show ?thesis .
  next
    case True
    obtain a s1 where a: "attempt w p messages options s = (a, s1)"
      by (cases "attempt w p messages options s")
    define zs where "zs = (if isAvailable w p then [p] else [])"
    have inv: "invoked s1 = invoked s @ zs"
      using attempt_state(1) [OF a] by (simp add: zs_def)
    show ?thesis
    proof (cases a)
      case (Some r)
      with Cons.prems True a have eq: "s' = s1" "r = response" by simp_all
      have "isAvailable w p" using attempt_success(1) [OF a [unfolded Some eq(2)]] .
      with inv eq(1) have "last (attempted s s') = p" by (simp add: attempted_def zs_def)
      with attempt_success_call [OF a [unfolded Some eq(2)]] show ?thesis by blast
    next
      case None
      with Cons.prems True a have rest: "tryFallbacks w ps messages options s1 = (Inr response, s')"
        by simp
      from tryFallbacks_trace [OF rest] obtain ys where ys: "invoked s' = invoked s1 @ ys"
        by blast
      have att: "attempted s s' = zs @ attempted s1 s'"
        using ys inv by (simp add: attempted_def)
      have "attempted s1 s' \<noteq> []" using tryFallbacks_served [OF rest] by simp
      with Cons.IH [OF rest] att show ?thesis by simp
    qed
  qed
qed

lemma subseq_length_le: "subseq ys xs \<Longrightarrow> length ys \<le> length xs"
  by (induction rule: list_emb.induct) auto

text \<open>
  C4. A request either returns the response of the candidate attempted last, or fails,
  and then with the error "All LLM providers are currently unavailable": no error of a
  provider escapes, and a request in which no candidate succeeds ends in that error. In
  particular the request fails with that error when each of its candidates is not
  available, or has an open circuit that has not cooled down by the end of the request,
  or has a \<^verbatim>\<open>generateResponse\<close> that throws.
  The attempts of a request are taken from its three candidates in order, so there are
  at most three and none is retried. When the request fails, every attempt made has
  failed and been counted: the failure count of each provider has grown by the number of
  its attempts, and a provider that stood at 0 and was attempted once stands at 1.
\<close>

theorem all_providers_unavailable:
  "(generateResponse w messages options s = (Inl e, s') \<longrightarrow>
      e = Error ''All LLM providers are currently unavailable''
      \<and> failures s' (name P) = failures s (name P) + count_list (attempted s s') P
      \<and> (count_list (attempted s s') P = 1 \<and> failures s (name P) = 0 \<longrightarrow>
           failures s' (name P) = 1))
   \<and> (generateResponse w messages options s = (Inr response, s') \<longrightarrow>
      attempted s s' \<noteq> []
      \<and> resp_provider response = name (last (attempted s s'))
      \<and> (\<exists>s1 s2. provider_generateResponse w (last (attempted s s')) messages options s1
            = (Inr response, s2)))
   \<and> ((\<forall>p \<in> set (fst (getProvider w auto (providers s)) # [Anthropic, OpenAI]).
          \<not> isAvailable w p
          \<or> (3 \<le> failures s (name p)
              \<and> now (snd (generateResponse w messages options s)) - lastFailure s (name p) \<le> 60000)
          \<or> (\<forall>s1. isl (fst (provider_generateResponse w p messages options s1)))) \<longrightarrow>
        fst (generateResponse w messages options s)
          = Inl (Error ''All LLM providers are currently unavailable''))
   \<and> subseq (attempted s (snd (generateResponse w messages options s)))
        (fst (getProvider w auto (providers s)) # [Anthropic, OpenAI])
   \<and> length (attempted s (snd (generateResponse w messages options s))) \<le> 3"
proof (intro conjI impI)
  let ?s0 = "initializeProviders w s"
  let ?cs = "fst (getProvider w auto (providers s)) # [Anthropic, OpenAI]"
  have att: "attempted s t = attempted ?s0 t" for t
    by (simp add: attempted_def initializeProviders_fields)
  {
    let ?run = "generateResponse w messages options s"
    assume all: "\<forall>p \<in> set ?cs.
          \<not> isAvailable w p
          \<or> (3 \<le> failures s (name p) \<and> now (snd ?run) - lastFailure s (name p) \<le> 60000)
          \<or> (\<forall>s1. isl (fst (provider_generateResponse w p messages options s1)))"
    show "fst ?run = Inl (Error ''All LLM providers are currently unavailable'')"
    proof (cases "fst ?run")
      case (Inl e)
      then have "tryFallbacks w ?cs messages options ?s0 = (Inl e, snd ?run)"
        by (simp add: generateResponse_as_loop prod_eq_iff)
      from tryFallbacks_exhausted [OF this, of Local] Inl show ?thesis by simp
    next
      case (Inr response)
      then have whole: "?run = (Inr response, snd ?run)" by (simp add: prod_eq_iff)
      then have run: "tryFallbacks w ?cs messages options ?s0 = (Inr response, snd ?run)"
        by (simp add: generateResponse_as_loop)
      let ?p = "last (attempted s (snd ?run))"
      note sv = tryFallbacks_served [OF run, unfolded att [symmetric]]
      have served: "attempted s (snd ?run) \<noteq> []" "?p \<in> set ?cs" "isAvailable w ?p"
        using sv by blast+
      from tryFallbacks_served_call [OF run, unfolded att [symmetric]] obtain s1 s2
        where "provider_generateResponse w ?p messages options s1 = (Inr response, s2)"
        by blast
      then have answered: "\<not> isl (fst (provider_generateResponse w ?p messages options s1))"
        by simp
      from served(1) have "?p \<in> set (attempted s (snd ?run))" by simp
      with generateResponse_open [OF whole, of ?p]
      have "\<not> (3 \<le> failures s (name ?p) \<and> now (snd ?run) - lastFailure s (name ?p) \<le> 60000)"
        by blast
      with all served(2,3) answered have False by blast
      then show ?thesis ..
    qed
  }
  {
    assume "generateResponse w messages options s = (Inl e, s')"
    then have run: "tryFallbacks w ?cs messages options ?s0 = (Inl e, s')"
      by (simp add: generateResponse_as_loop)
    from tryFallbacks_exhausted [OF run, of P]
    show "e = Error ''All LLM providers are currently unavailable''"
      and count: "failures s' (name P) = failures s (name P) + count_list (attempted s s') P"
      by (simp_all add: att initializeProviders_circuit)
    assume "count_list (attempted s s') P = 1 \<and> failures s (name P) = 0"
    with count show "failures s' (name P) = 1" by simp
  }
  {
    assume "generateResponse w messages options s = (Inr response, s')"
    then have run: "tryFallbacks w ?cs messages options ?s0 = (Inr response, s')"
      by (simp add: generateResponse_as_loop)
    from tryFallbacks_served [OF run]
    show "attempted s s' \<noteq> []" and "resp_provider response = name (last (attempted s s'))"
      by (simp_all add: att)
    from tryFallbacks_served_call [OF run]
    show "\<exists>s1 s2. provider_generateResponse w (last (attempted s s')) messages options s1
            = (Inr response, s2)"
      by (simp add: att)
  }
  show sub: "subseq (attempted s (snd (generateResponse w messages options s))) ?cs"
    by (rule generateResponse_trace)
  from subseq_length_le [OF sub]
  show "length (attempted s (snd (generateResponse w messages options s))) \<le> 3"
    by simp
qed

theorem all_providers_unavailable_witness:
  "fst (generateResponse (world_of True False True [Anthropic, OpenAI]) hello None
          (new_ResilientLLMService 1000))
     = Inl (Error ''All LLM providers are currently unavailable'')
   \<and> attempted (new_ResilientLLMService 1000)
        (snd (generateResponse (world_of True False True [Anthropic, OpenAI]) hello None
          (new_ResilientLLMService 1000))) = [Anthropic, OpenAI]
   \<and> failures (new_ResilientLLMService 1000) (name Anthropic) = 0
   \<and> failures (new_ResilientLLMService 1000) (name OpenAI) = 0
   \<and> failures (snd (generateResponse (world_of True False True [Anthropic, OpenAI]) hello None
          (new_ResilientLLMService 1000))) (name Anthropic) = 1
   \<and> failures (snd (generateResponse (world_of True False True [Anthropic, OpenAI]) hello None
          (new_ResilientLLMService 1000))) (name OpenAI) = 1
   \<and> (\<exists>response. fst (generateResponse (world_of True False True [Anthropic]) hello None
          (new_ResilientLLMService 1000)) = Inr response
        \<and> resp_provider response = name OpenAI)"
proof -
  let ?w = "world_of True False True [Anthropic, OpenAI]"
  let ?s = "new_ResilientLLMService 1000"
  let ?run = "generateResponse ?w hello None ?s"
  let ?e = "Error ''All LLM providers are currently unavailable''"
  have r: "fst ?run = Inl ?e" by code_simp
  then have run: "?run = (Inl ?e, snd ?run)" by (simp add: prod_eq_iff)
  have att: "attempted ?s (snd ?run) = [Anthropic, OpenAI]" by code_simp
  have zero: "failures ?s (name Anthropic) = 0" "failures ?s (name OpenAI) = 0" by code_simp+
  have a: "failures (snd ?run) (name Anthropic) = 1"
    using all_providers_unavailable [of ?w hello None ?s ?e "snd ?run" Anthropic] run att zero
    by simp
  have b: "failures (snd ?run) (name OpenAI) = 1"
    using all_providers_unavailable [of ?w hello None ?s ?e "snd ?run" OpenAI] run att zero
    by simp
  let ?w2 = "world_of True False True [Anthropic]"
  let ?run2 = "generateResponse ?w2 hello None ?s"
  have "\<not> isl (fst ?run2)" by code_simp
  then obtain response where r2: "fst ?run2 = Inr response" by (cases "fst ?run2") simp_all
  then have run2: "?run2 = (Inr response, snd ?run2)" by (simp add: prod_eq_iff)
  have att2: "attempted ?s (snd ?run2) = [Anthropic, OpenAI]" by code_simp
  have c: "resp_provider response = name OpenAI"
    using all_providers_unavailable [of ?w2 hello None ?s _ "snd ?run2" _ response] run2 att2
    by simp
  have local_off: "\<not> isAvailable ?w Local" by code_simp
  have down: "isl (fst (provider_generateResponse ?w p hello None s1))"
    if "p = Anthropic \<or> p = OpenAI" for p s1
    using that
    by (auto simp: provider_generateResponse_def Anthropic_generateResponse_def
        OpenAI_generateResponse_def world_of_def vendors_down_def Let_def)
  have cands: "fst (getProvider ?w auto (providers ?s)) # [Anthropic, OpenAI]
      = [Local, Anthropic, OpenAI]"
    by code_simp
  have r': "fst ?run = Inl ?e"
    using all_providers_unavailable [of ?w hello None ?s] local_off down
    unfolding cands by simp
  from r' att zero a b r2 c show ?thesis by blast
qed


subsection \<open>Unavailable providers\<close>

text \<open>A provider that is not available is never called by the loop, and the loop leaves
  its circuit state as it was.\<close>

lemma tryFallbacks_unavailable:
  assumes "tryFallbacks w ps messages options s = (r, s')" and "\<not> isAvailable w P"
  shows "count_list (invoked s') P = count_list (invoked s) P
       \<and> failureCount s' (name P) = failureCount s (name P)
       \<and> lastFailureTime s' (name P) = lastFailureTime s (name P)"
  using assms(1)
proof (induction ps arbitrary: s)
  case Nil
  then show ?case by simp
next
  case (Cons p ps)
  show ?case
  proof (cases "shouldAttemptProvider (name p) s \<and> isAvailable w p")
    case False
    with Cons.prems have "tryFallbacks w ps messages options s = (r, s')"
      by (cases "shouldAttemptProvider (name p) s") (simp_all add: attempt_unavailable)
    from Cons.IH [OF this] show ?thesis .
  next
    case True
    with assms(2) have ne: "p \<noteq> P" by auto
    then have nne: "name P \<noteq> name p" by simp
    obtain a s1 where a: "attempt w p messages options s = (a, s1)"
      by (cases "attempt w p messages options s")
    have inv: "count_list (invoked s1) P = count_list (invoked s) P"
      using attempt_state(1) [OF a] ne by simp
    have fc: "failureCount s1 (name P) = failureCount s (name P)"
      using attempt_state(5) [OF a nne] .
    have lf: "lastFailureTime s1 (name P) = lastFailureTime s (name P)"
      using attempt_state(6) [OF a nne] .
    show ?thesis
    proof (cases a)
      case (Some response)
      with Cons.prems True a have "s' = s1" by simp
      with inv fc lf show ?thesis by simp
    next
      case None
      with Cons.prems True a have "tryFallbacks w ps messages options s1 = (r, s')" by simp
      from Cons.IH [OF this] inv fc lf show ?thesis by simp
    qed
  qed
qed

lemma tryFallbacks_skip_unavailable:
  "\<not> isAvailable w P \<Longrightarrow>
     tryFallbacks w (P # ps) messages options s = tryFallbacks w ps messages options s"
  by (simp add: attempt_unavailable)

lemma tryFallbacks_first_success:
  assumes "shouldAttemptProvider (name p) s" and "isAvailable w p"
    and "provider_generateResponse w p messages options s = (Inr response, s1)"
  shows "tryFallbacks w (p # ps) messages options s = (Inr response, recordSuccess (name p) s1)"
  using assms by (simp add: attempt_def)

lemma generateResponse_unavailable:
  assumes "generateResponse w messages options s = (r, s')" and "\<not> isAvailable w P"
  shows "P \<notin> set (attempted s s')
       \<and> failureCount s' (name P) = failureCount s (name P)
       \<and> lastFailureTime s' (name P) = lastFailureTime s (name P)"
proof -
  let ?s0 = "initializeProviders w s"
  let ?cs = "fst (getProvider w auto (providers s)) # [Anthropic, OpenAI]"
  have run: "tryFallbacks w ?cs messages options ?s0 = (r, s')"
    using assms(1) by (simp add: generateResponse_as_loop)
  from tryFallbacks_unavailable [OF run assms(2)]
  have keep: "count_list (invoked s') P = count_list (invoked s) P
       \<and> failureCount s' (name P) = failureCount s (name P)
       \<and> lastFailureTime s' (name P) = lastFailureTime s (name P)"
    by (simp add: initializeProviders_fields)
  from tryFallbacks_trace [OF run] obtain ys where ys: "invoked s' = invoked s @ ys"
    by (auto simp: initializeProviders_fields)
  with keep have "count_list ys P = 0" by simp
  then have "P \<notin> set ys" by (simp add: count_list_0_iff)
  with ys have "P \<notin> set (attempted s s')" by (simp add: attempted_def)
  with keep show ?thesis by simp
qed

lemma disabled_local_primary:
  assumes "isEnabled w STRICT_LOCAL_MODE" and "\<not> isEnabled w LOCAL_LLM"
  shows "generateResponse w messages options s
          = tryFallbacks w [Anthropic, OpenAI] messages options (initializeProviders w s)"
proof -
  have "\<not> isAvailable w Local" using assms(2) by (simp add: isAvailable_def)
  then have "tryFallbacks w (Local # [Anthropic, OpenAI]) messages options (initializeProviders w s)
      = tryFallbacks w [Anthropic, OpenAI] messages options (initializeProviders w s)"
    by (rule tryFallbacks_skip_unavailable)
  moreover have "fst (getProvider w auto (providers s)) = Local"
    using assms(1) by simp
  ultimately show ?thesis by (simp only: generateResponse_as_loop)
qed

text \<open>
  C6. A candidate whose \<^verbatim>\<open>isAvailable()\<close> answers false is passed over without penalty.
  \<^item> Over a whole request, a provider that is not available is never attempted, and its
    failure count and failure timestamp are what they were.
  \<^item> At its position in the loop over the candidates, the loop goes on with the
    candidates after it.
  \<^item> With strict local mode on and the local model off, the primary is the local
    provider, it is not available, and the request is the loop over the fallbacks
    Anthropic and OpenAI.
  \<^item> In that flag state, let \<open>f\<close> be the first fallback that gets through: Anthropic, or
    OpenAI when the circuit check stops Anthropic. When \<open>f\<close> is available and its call
    returns a response, the request returns that response, which names \<open>f\<close>, and the
    circuit state of the local provider is what it was.
\<close>

theorem unavailable_not_penalised:
  "(\<not> isAvailable w P \<and> generateResponse w messages options s = (r, s') \<longrightarrow>
      P \<notin> set (attempted s s')
      \<and> failureCount s' (name P) = failureCount s (name P)
      \<and> lastFailureTime s' (name P) = lastFailureTime s (name P))
   \<and> (\<not> isAvailable w P \<longrightarrow>
      tryFallbacks w (P # ps) messages options s = tryFallbacks w ps messages options s)
   \<and> (isEnabled w STRICT_LOCAL_MODE \<and> \<not> isEnabled w LOCAL_LLM \<longrightarrow>
      primaryProvider (initializeProviders w s) = Local
      \<and> \<not> isAvailable w Local
      \<and> generateResponse w messages options s
          = tryFallbacks w [Anthropic, OpenAI] messages options (initializeProviders w s))
   \<and> (isEnabled w STRICT_LOCAL_MODE \<and> \<not> isEnabled w LOCAL_LLM
        \<and> (f = Anthropic \<or> f = OpenAI \<and> \<not> shouldAttemptProvider (name Anthropic) s)
        \<and> shouldAttemptProvider (name f) s \<and> isAvailable w f
        \<and> provider_generateResponse w f messages options (initializeProviders w s)
             = (Inr response, s1) \<longrightarrow>
      generateResponse w messages options s = (Inr response, recordSuccess (name f) s1)
      \<and> resp_provider response = name f
      \<and> failureCount (recordSuccess (name f) s1) (name Local) = failureCount s (name Local)
      \<and> lastFailureTime (recordSuccess (name f) s1) (name Local) = lastFailureTime s (name Local))"
proof (intro conjI impI)
  let ?s0 = "initializeProviders w s"
  let ?cs = "fst (getProvider w auto (providers s)) # [Anthropic, OpenAI]"
  {
    assume h: "\<not> isAvailable w P \<and> generateResponse w messages options s = (r, s')"
    then have "generateResponse w messages options s = (r, s')" and "\<not> isAvailable w P"
      by simp_all
    from generateResponse_unavailable [OF this]
    show "P \<notin> set (attempted s s')"
      and "failureCount s' (name P) = failureCount s (name P)"
      and "lastFailureTime s' (name P) = lastFailureTime s (name P)"
      by simp_all
  }
  {
    assume "\<not> isAvailable w P"
    then show "tryFallbacks w (P # ps) messages options s = tryFallbacks w ps messages options s"
      by (rule tryFallbacks_skip_unavailable)
  }
  {
    assume h: "isEnabled w STRICT_LOCAL_MODE \<and> \<not> isEnabled w LOCAL_LLM"
    then show prim: "primaryProvider ?s0 = Local"
      by (simp add: initializeProviders_fields)
    from h show off: "\<not> isAvailable w Local" by (simp add: isAvailable_def)
    from h show "generateResponse w messages options s
          = tryFallbacks w [Anthropic, OpenAI] messages options ?s0"
      by (simp add: disabled_local_primary)
  }
  {
    assume h: "isEnabled w STRICT_LOCAL_MODE \<and> \<not> isEnabled w LOCAL_LLM
        \<and> (f = Anthropic \<or> f = OpenAI \<and> \<not> shouldAttemptProvider (name Anthropic) s)
        \<and> shouldAttemptProvider (name f) s \<and> isAvailable w f
        \<and> provider_generateResponse w f messages options ?s0 = (Inr response, s1)"
    then have off: "\<not> isAvailable w Local" by (simp add: isAvailable_def)
    have chain: "generateResponse w messages options s
          = tryFallbacks w [Anthropic, OpenAI] messages options ?s0"
      using h by (simp add: disabled_local_primary)
    from h have gate: "shouldAttemptProvider (name f) ?s0"
      by (simp add: initializeProviders_circuit)
    from h have call: "provider_generateResponse w f messages options ?s0 = (Inr response, s1)"
      and avail: "isAvailable w f" by simp_all
    have served: "tryFallbacks w (f # qs) messages options ?s0
        = (Inr response, recordSuccess (name f) s1)" for qs
      using gate avail call by (rule tryFallbacks_first_success)
    from h consider "f = Anthropic" | "f = OpenAI" "\<not> shouldAttemptProvider (name Anthropic) ?s0"
      by (auto simp: initializeProviders_circuit)
    then show "generateResponse w messages options s = (Inr response, recordSuccess (name f) s1)"
    proof cases
      case 1
      with served [of "[OpenAI]"] chain show ?thesis by simp
    next
      case 2
      with served [of "[]"] chain show ?thesis by simp
    qed
    show "resp_provider response = name f"
      using call by (rule provider_generateResponse_provider)
    from h have "name Local \<noteq> name f" by auto
    then show "failureCount (recordSuccess (name f) s1) (name Local) = failureCount s (name Local)"
      using provider_generateResponse_state(3) [OF call]
      by (simp add: recordSuccess_fields initializeProviders_fields)
    from \<open>name Local \<noteq> name f\<close>
    show "lastFailureTime (recordSuccess (name f) s1) (name Local) = lastFailureTime s (name Local)"
      using provider_generateResponse_state(4) [OF call]
      by (simp add: recordSuccess_fields initializeProviders_fields)
  }
qed


theorem unavailable_not_penalised_witness:
  "\<not> isAvailable (world_of True False True []) Local
   \<and> Local \<notin> set (attempted (new_ResilientLLMService 1000)
        (snd (generateResponse (world_of True False True []) hello None (new_ResilientLLMService 1000))))
   \<and> failureCount
        (snd (generateResponse (world_of True False True []) hello None (new_ResilientLLMService 1000)))
        (name Local) = failureCount (new_ResilientLLMService 1000) (name Local)
   \<and> lastFailureTime
        (snd (generateResponse (world_of True False True []) hello None (new_ResilientLLMService 1000)))
        (name Local) = lastFailureTime (new_ResilientLLMService 1000) (name Local)
   \<and> (\<exists>response s'.
        generateResponse (world_of True False True []) hello None (new_ResilientLLMService 1000)
          = (Inr response, s')
        \<and> resp_provider response = name Anthropic)
   \<and> (\<exists>response s'.
        generateResponse (world_of True False True []) hello None (tripped 30000)
          = (Inr response, s')
        \<and> resp_provider response = name OpenAI)"
proof -
  let ?w = "world_of True False True []"
  let ?s = "new_ResilientLLMService 1000"
  let ?run = "generateResponse ?w hello None ?s"
  have flags: "isEnabled ?w STRICT_LOCAL_MODE \<and> \<not> isEnabled ?w LOCAL_LLM" by code_simp
  have off: "\<not> isAvailable ?w Local" by code_simp
  have run: "?run = (fst ?run, snd ?run)" by simp
  have keep: "Local \<notin> set (attempted ?s (snd ?run))
      \<and> failureCount (snd ?run) (name Local) = failureCount ?s (name Local)
      \<and> lastFailureTime (snd ?run) (name Local) = lastFailureTime ?s (name Local)"
    using unavailable_not_penalised [of ?w Local hello None ?s "fst ?run" "snd ?run"] off run
    by blast
  let ?call = "provider_generateResponse ?w Anthropic hello None (initializeProviders ?w ?s)"
  have "\<not> isl (fst ?call)" by code_simp
  then obtain response where "fst ?call = Inr response" by (cases "fst ?call") simp_all
  then have call: "?call = (Inr response, snd ?call)" by (simp add: prod_eq_iff)
  have gate: "shouldAttemptProvider (name Anthropic) ?s" by code_simp
  have avail: "isAvailable ?w Anthropic" by code_simp
  have first: "?run = (Inr response, recordSuccess (name Anthropic) (snd ?call))
      \<and> resp_provider response = name Anthropic"
    using unavailable_not_penalised [of ?w _ hello None ?s _ _ _ Anthropic response "snd ?call"]
      flags gate avail call by blast
  let ?t = "tripped 30000"
  let ?call2 = "provider_generateResponse ?w OpenAI hello None (initializeProviders ?w ?t)"
  have "\<not> isl (fst ?call2)" by code_simp
  then obtain response2 where "fst ?call2 = Inr response2" by (cases "fst ?call2") simp_all
  then have call2: "?call2 = (Inr response2, snd ?call2)" by (simp add: prod_eq_iff)
  have gate2: "shouldAttemptProvider (name OpenAI) ?t" by code_simp
  have closed: "\<not> shouldAttemptProvider (name Anthropic) ?t" by code_simp
  have avail2: "isAvailable ?w OpenAI" by code_simp
  have second: "generateResponse ?w hello None ?t
        = (Inr response2, recordSuccess (name OpenAI) (snd ?call2))
      \<and> resp_provider response2 = name OpenAI"
    using unavailable_not_penalised [of ?w _ hello None ?t _ _ _ OpenAI response2 "snd ?call2"]
      flags gate2 closed avail2 call2 by blast
  from off keep first second show ?thesis by blast
qed

subsection \<open>Strict local mode without the local model\<close>

lemma auto_is_local:
  "isEnabled w STRICT_LOCAL_MODE \<Longrightarrow> fst (getProvider w auto cache) = Local"
  by simp

text \<open>
  C10. In a flag state with strict local mode on and the local model off: \<open>auto\<close>
  resolves to the local provider, which becomes the primary; the local provider is not
  available, since its availability is the local-model flag alone; its
  \<^verbatim>\<open>generateResponse\<close> throws "Local LLM is not enabled" at once, the state recording no
  more than that it was entered; a request never attempts the local provider; and every
  response a request returns comes from Anthropic or OpenAI, the remote provider
  attempted last, never from the local one.
\<close>

theorem strict_mode_without_local_model:
  "isEnabled w STRICT_LOCAL_MODE \<and> \<not> isEnabled w LOCAL_LLM \<longrightarrow>
     fst (getProvider w auto cache) = Local
     \<and> primaryProvider (initializeProviders w s) = Local
     \<and> \<not> isAvailable w Local
     \<and> Local_generateResponse w messages options s
         = (Inl (Error ''Local LLM is not enabled''), s\<lparr>invoked := invoked s @ [Local]\<rparr>)
     \<and> Local \<notin> set (attempted s (snd (generateResponse w messages options s)))
     \<and> (generateResponse w messages options s = (Inr response, s') \<longrightarrow>
          (resp_provider response = name Anthropic \<or> resp_provider response = name OpenAI)
          \<and> resp_provider response \<noteq> name Local
          \<and> resp_provider response = name (last (attempted s s'))
          \<and> \<not> isLocal (last (attempted s s'))
          \<and> requiresNetwork (last (attempted s s')))"
proof (intro impI conjI)
  assume h: "isEnabled w STRICT_LOCAL_MODE \<and> \<not> isEnabled w LOCAL_LLM"
  let ?s0 = "initializeProviders w s"
  let ?cs = "fst (getProvider w auto (providers s)) # [Anthropic, OpenAI]"
  let ?run = "generateResponse w messages options s"
  from h show "fst (getProvider w auto cache) = Local" by (simp add: auto_is_local)
  from h show "primaryProvider ?s0 = Local"
    by (simp only: initializeProviders_fields auto_is_local)
  from h show off: "\<not> isAvailable w Local" by (simp add: isAvailable_def)
  from h show "Local_generateResponse w messages options s
         = (Inl (Error ''Local LLM is not enabled''), s\<lparr>invoked := invoked s @ [Local]\<rparr>)"
    by (simp add: Local_generateResponse_def Let_def)
  have "?run = (fst ?run, snd ?run)" by simp
  from generateResponse_unavailable [OF this off]
  show "Local \<notin> set (attempted s (snd ?run))" by simp
  assume ok: "?run = (Inr response, s')"
  then have run: "tryFallbacks w ?cs messages options ?s0 = (Inr response, s')"
    by (simp add: generateResponse_as_loop)
  have att: "attempted ?s0 s' = attempted s s'"
    by (simp add: attempted_def initializeProviders_fields)
  let ?p = "last (attempted s s')"
  from tryFallbacks_served [OF run]
  have served: "resp_provider response = name ?p" "?p \<in> set ?cs" "isAvailable w ?p"
    by (simp_all only: att)
  from served(3) off have "?p \<noteq> Local" by auto
  with served(2) h have p: "?p = Anthropic \<or> ?p = OpenAI"
    by (auto simp only: auto_is_local set_simps)
  with served(1) show "resp_provider response = name Anthropic \<or> resp_provider response = name OpenAI"
    by auto
  from p served(1) show "resp_provider response \<noteq> name Local" by auto
  from served(1) show "resp_provider response = name ?p" .
  from p show "\<not> isLocal ?p" by auto
  from p show "requiresNetwork ?p" by auto
qed

theorem strict_mode_without_local_model_witness:
  "isEnabled (world_of True False True []) STRICT_LOCAL_MODE
   \<and> \<not> isEnabled (world_of True False True []) LOCAL_LLM
   \<and> fst (getProvider (world_of True False True []) auto {anthropic, openai}) = Local
   \<and> \<not> isAvailable (world_of True False True []) Local
   \<and> (\<exists>response.
        fst (generateResponse (world_of True False True []) hello None (new_ResilientLLMService 1000))
          = Inr response
        \<and> resp_provider response \<noteq> name Local
        \<and> requiresNetwork (last (attempted (new_ResilientLLMService 1000)
             (snd (generateResponse (world_of True False True []) hello None
                (new_ResilientLLMService 1000))))))"
proof -
  let ?w = "world_of True False True []"
  let ?s = "new_ResilientLLMService 1000"
  let ?run = "generateResponse ?w hello None ?s"
  have flags: "isEnabled ?w STRICT_LOCAL_MODE \<and> \<not> isEnabled ?w LOCAL_LLM" by code_simp
  have "\<not> isl (fst ?run)" by code_simp
  then obtain response where r: "fst ?run = Inr response" by (cases "fst ?run") simp_all
  then have run: "?run = (Inr response, snd ?run)" by (simp add: prod_eq_iff)
  from strict_mode_without_local_model
    [of ?w "{anthropic, openai}" ?s hello None response "snd ?run"] flags run r
  show ?thesis by blast
qed

subsection \<open>The callbacks of a provider's stream\<close>




lemma emit_length [simp]: "length (emit ws i acc) = length ws"
  by (induction ws arbitrary: i acc) (simp_all add: Let_def)






text \<open>The loop either hands every accumulated text to \<^verbatim>\<open>onToken\<close>, or stops at the
  first call that throws.\<close>

lemma stream_words_result:
  assumes "stream_words cb d ws i acc calls s = (r, calls', s')"
  shows "(r = Inr () \<and> calls' = calls @ map onToken (emit ws i acc))
       \<or> (\<exists>j e. j < length ws \<and> r = Inl e
             \<and> calls' = calls @ map onToken (take (Suc j) (emit ws i acc))
             \<and> cb (calls @ map onToken (take j (emit ws i acc))) (onToken (emit ws i acc ! j))
                 = Some e)"
  using assms
proof (induction ws arbitrary: i acc calls s)
  case Nil
  then show ?case by simp
next
  case (Cons w ws)
  let ?acc = "acc @ (if i > 0 then '' '' else []) @ w"
  let ?rest = "emit ws (Suc i) ?acc"
  have em: "emit (w # ws) i acc = ?acc # ?rest" by (simp add: Let_def)
  show ?case
  proof (cases "cb calls (onToken ?acc)")
    case (Some e)
    with Cons.prems have "r = Inl e" "calls' = calls @ [onToken ?acc]"
      by (simp_all add: invoke_def Let_def)
    with Some have "0 < length (w # ws) \<and> r = Inl e
        \<and> calls' = calls @ map onToken (take (Suc 0) (emit (w # ws) i acc))
        \<and> cb (calls @ map onToken (take 0 (emit (w # ws) i acc)))
             (onToken (emit (w # ws) i acc ! 0)) = Some e"
      unfolding em by simp
    then show ?thesis by blast
  next
    case None
    with Cons.prems have run:
      "stream_words cb d ws (Suc i) ?acc (calls @ [onToken ?acc]) (s\<lparr>now := now s + int d\<rparr>)
        = (r, calls', s')"
      by (simp add: invoke_def Let_def)
    from Cons.IH [OF run] show ?thesis
    proof (elim disjE exE conjE)
      assume "r = Inr ()" "calls' = (calls @ [onToken ?acc]) @ map onToken ?rest"
      then show ?thesis unfolding em by simp
    next
      fix j e
      assume j: "j < length ws" and r: "r = Inl e"
        and c: "calls' = (calls @ [onToken ?acc]) @ map onToken (take (Suc j) ?rest)"
        and t: "cb ((calls @ [onToken ?acc]) @ map onToken (take j ?rest)) (onToken (?rest ! j))
                 = Some e"
      have "Suc j < length (w # ws) \<and> r = Inl e
          \<and> calls' = calls @ map onToken (take (Suc (Suc j)) (emit (w # ws) i acc))
          \<and> cb (calls @ map onToken (take (Suc j) (emit (w # ws) i acc)))
               (onToken (emit (w # ws) i acc ! Suc j)) = Some e"
        unfolding em using j r c t by simp
      then show ?thesis by blast
    qed
  qed
qed

text \<open>The four ways through the shared body of the \<^verbatim>\<open>streamResponse\<close> methods.\<close>

lemma stream_body_failed:
  assumes "generate messages (Some options) s = (Inl error, s1)"
  shows "stream_body generate delay msg cb messages options s
     = (settle cb [] (onError (as_Error error msg)), [onError (as_Error error msg)], s1)"
  using assms by (simp add: stream_body_def invoke_def settle_def)

lemma stream_body_answered:
  assumes "generate messages (Some options) s = (Inr response, s1)"
    and "stream_body generate delay msg cb messages options s = (settled, calls, s2)"
  defines "full \<equiv> emit (split_space (resp_content response)) 0 []"
  shows "(\<exists>elapsed. settled = Inr ()
            \<and> calls = map onToken full @ [onComplete (response\<lparr>processingTime := elapsed\<rparr>)])
       \<or> (\<exists>elapsed e.
            calls = map onToken full
              @ [onComplete (response\<lparr>processingTime := elapsed\<rparr>), onError (as_Error e msg)]
            \<and> cb (map onToken full) (onComplete (response\<lparr>processingTime := elapsed\<rparr>)) = Some e
            \<and> settled = settle cb
                 (map onToken full @ [onComplete (response\<lparr>processingTime := elapsed\<rparr>)])
                 (onError (as_Error e msg)))
       \<or> (\<exists>j e. j < length full
            \<and> calls = map onToken (take (Suc j) full) @ [onError (as_Error e msg)]
            \<and> cb (map onToken (take j full)) (onToken (full ! j)) = Some e
            \<and> settled = settle cb (map onToken (take (Suc j) full)) (onError (as_Error e msg)))"
proof -
  let ?ws = "split_space (resp_content response)"
  obtain r cs t where loop: "stream_words cb delay ?ws 0 [] [] s1 = (r, cs, t)"
    by (cases "stream_words cb delay ?ws 0 [] [] s1")
  from stream_words_result [OF loop]
  consider (all) "r = Inr ()" "cs = map onToken full"
    | (stop) j e where "j < length ?ws" "r = Inl e" "cs = map onToken (take (Suc j) full)"
        "cb (map onToken (take j full)) (onToken (full ! j)) = Some e"
    unfolding full_def by auto
  then show ?thesis
  proof cases
    case all
    let ?c = "onComplete (response\<lparr>processingTime := now t - now s\<rparr>)"
    show ?thesis
    proof (cases "cb cs ?c")
      case None
      with assms(1) loop all have "stream_body generate delay msg cb messages options s
          = (Inr (), map onToken full @ [?c], t)"
        by (simp add: stream_body_def invoke_def Let_def)
      with assms(2) have "settled = Inr () \<and> calls = map onToken full @ [?c]" by auto
      then show ?thesis by blast
    next
      case (Some e)
      with assms(1) loop all have "stream_body generate delay msg cb messages options s
          = (settle cb (map onToken full @ [?c]) (onError (as_Error e msg)),
             map onToken full @ [?c, onError (as_Error e msg)], t)"
        by (simp add: stream_body_def invoke_def settle_def Let_def)
      with assms(2) Some all have
        "calls = map onToken full @ [?c, onError (as_Error e msg)]
         \<and> cb (map onToken full) ?c = Some e
         \<and> settled = settle cb (map onToken full @ [?c]) (onError (as_Error e msg))"
        by auto
      then show ?thesis by blast
    qed
  next
    case stop
    with assms(1) loop have "stream_body generate delay msg cb messages options s
        = (settle cb (map onToken (take (Suc j) full)) (onError (as_Error e msg)),
           map onToken (take (Suc j) full) @ [onError (as_Error e msg)], t)"
      by (simp add: stream_body_def invoke_def settle_def Let_def)
    with assms(2) stop have
      "j < length full
       \<and> calls = map onToken (take (Suc j) full) @ [onError (as_Error e msg)]
       \<and> cb (map onToken (take j full)) (onToken (full ! j)) = Some e
       \<and> settled = settle cb (map onToken (take (Suc j) full)) (onError (as_Error e msg))"
      by (auto simp: full_def)
    then show ?thesis by blast
  qed
qed







text \<open>The three \<^verbatim>\<open>streamResponse\<close> methods as instances of the shared body.\<close>

lemma provider_streamResponse_body:
  "provider_streamResponse w p cb messages options s =
     stream_body (provider_generateResponse w p)
       (case p of OpenAI \<Rightarrow> 50 | Anthropic \<Rightarrow> 40 | Local \<Rightarrow> 25)
       (case p of OpenAI \<Rightarrow> ''Unknown error'' | Anthropic \<Rightarrow> ''Unknown error''
          | Local \<Rightarrow> ''Local LLM error'')
       cb messages options s"
proof -
  have "provider_generateResponse w OpenAI = OpenAI_generateResponse w"
    and "provider_generateResponse w Anthropic = Anthropic_generateResponse w"
    and "provider_generateResponse w Local = Local_generateResponse w"
    by (simp_all add: fun_eq_iff provider_generateResponse_def)
  then show ?thesis
    by (cases p)
      (simp_all add: provider_streamResponse_def OpenAI_streamResponse_def
        Anthropic_streamResponse_def Local_streamResponse_def)
qed



text \<open>The stream of OpenAI for the answer "bonjour tout le monde", received after 200 ms,
  with callbacks that return.\<close>

lemma stream_example:
  "fst (provider_streamResponse (world_of False False True []) OpenAI silent hello plain
      (new_ResilientLLMService 1000)) = Inr ()
   \<and> fst (snd (provider_streamResponse (world_of False False True []) OpenAI silent hello plain
      (new_ResilientLLMService 1000)))
   = [onToken ''bonjour'', onToken ''bonjour tout'', onToken ''bonjour tout le'',
      onToken ''bonjour tout le monde'',
      onComplete \<lparr>resp_content = ''bonjour tout le monde'', resp_usage = None,
        resp_model = ''gpt-4o'', resp_provider = ''OpenAI'', processingTime = 400\<rparr>]"
  by code_simp

text \<open>The same stream with callbacks whose \<^verbatim>\<open>onComplete\<close> throws: the \<^verbatim>\<open>catch\<close> calls
  \<^verbatim>\<open>onError\<close> after it, and the promise fulfils.\<close>

lemma stream_example_onComplete_throws:
  "fst (provider_streamResponse (world_of False False True []) OpenAI brittle hello plain
      (new_ResilientLLMService 1000)) = Inr ()
   \<and> fst (snd (provider_streamResponse (world_of False False True []) OpenAI brittle hello plain
      (new_ResilientLLMService 1000)))
   = [onToken ''bonjour'', onToken ''bonjour tout'', onToken ''bonjour tout le'',
      onToken ''bonjour tout le monde'',
      onComplete \<lparr>resp_content = ''bonjour tout le monde'', resp_usage = None,
        resp_model = ''gpt-4o'', resp_provider = ''OpenAI'', processingTime = 400\<rparr>,
      onError (Error ''render failed'')]
   \<and> \<not> returned brittle
      (fst (snd (provider_streamResponse (world_of False False True []) OpenAI brittle hello plain
        (new_ResilientLLMService 1000))))"
  by code_simp


subsection \<open>Streaming through the accessor\<close>

text \<open>A provider's \<^verbatim>\<open>streamResponse\<close> rejects only when \<^verbatim>\<open>onError\<close> throws. So with
  an \<^verbatim>\<open>onError\<close> that returns and an available primary, the accessor's
  \<^verbatim>\<open>streamResponse\<close> is the primary's own stream and nothing else: the \<^verbatim>\<open>return\<close> is
  always taken.\<close>

lemma provider_streamResponse_fulfils:
  assumes "\<And>calls x. cb calls (onError x) = None"
  shows "fst (provider_streamResponse w p cb messages options s) = Inr ()"
proof -
  let ?gen = "provider_generateResponse w p"
  let ?d = "(case p of OpenAI \<Rightarrow> 50 | Anthropic \<Rightarrow> 40 | Local \<Rightarrow> 25) :: nat"
  let ?m = "case p of OpenAI \<Rightarrow> ''Unknown error'' | Anthropic \<Rightarrow> ''Unknown error''
          | Local \<Rightarrow> ''Local LLM error''"
  have ok: "settle cb calls (onError x) = Inr ()" for calls x
    using assms by (simp add: settle_def)
  obtain r s1 where g: "?gen messages (Some options) s = (r, s1)"
    by (cases "?gen messages (Some options) s")
  obtain settled calls s2
    where run: "stream_body ?gen ?d ?m cb messages options s = (settled, calls, s2)"
    by (cases "stream_body ?gen ?d ?m cb messages options s")
  have "settled = Inr ()"
  proof (cases r)
    case (Inl error)
    from stream_body_failed [where generate = ?gen and delay = ?d and msg = ?m and cb = cb,
        OF g [unfolded Inl]] run
    show ?thesis by (simp add: ok)
  next
    case (Inr response)
    from stream_body_answered [where generate = ?gen, OF g [unfolded Inr] run]
    show ?thesis by (auto simp: ok)
  qed
  with run show ?thesis by (simp add: provider_streamResponse_body)
qed

lemma streamResponse_primary_only:
  assumes "isAvailable w (fst (getProvider w auto (providers s)))"
    and "\<And>calls x. cb calls (onError x) = None"
  shows "streamResponse w cb messages options s =
     provider_streamResponse w (fst (getProvider w auto (providers s))) cb messages options
       (initializeProviders w s)"
proof -
  let ?s0 = "initializeProviders w s"
  let ?p = "fst (getProvider w auto (providers s))"
  obtain u calls s1
    where run: "provider_streamResponse w ?p cb messages options ?s0 = (u, calls, s1)"
    by (cases "provider_streamResponse w ?p cb messages options ?s0")
  with provider_streamResponse_fulfils [of cb w ?p messages options ?s0, OF assms(2)]
  have "u = Inr ()" by simp
  moreover have "supportsStreaming ?p" by (cases ?p) simp_all
  moreover have "primaryProvider ?s0 = ?p" by (rule initializeProviders_fields(1))
  ultimately show ?thesis
    using assms(1) run unfolding streamResponse_def Let_def by simp
qed

text \<open>
  C3 does not hold of the code. Strict local mode and the local model are off, so the
  primary is Anthropic; the Anthropic vendor is down and OpenAI answers; the callbacks
  return. The accessor's \<^verbatim>\<open>streamResponse\<close> on a new accessor makes one call on the
  callbacks, \<^verbatim>\<open>onError\<close> with the vendor's error, and its promise fulfils: Anthropic is
  the only provider attempted, no failure is recorded for the circuit breaker, and
  \<^verbatim>\<open>onComplete\<close> is never called, although \<^verbatim>\<open>generateResponse\<close> from the same state
  returns a response of OpenAI.
\<close>

theorem stream_failure_without_fallback:
  "fst (streamResponse (world_of False False True [Anthropic]) silent hello plain
          (new_ResilientLLMService 1000)) = Inr ()
   \<and> fst (snd (streamResponse (world_of False False True [Anthropic]) silent hello plain
          (new_ResilientLLMService 1000))) = [onError (Error ''503'')]
   \<and> attempted (new_ResilientLLMService 1000)
        (snd (snd (streamResponse (world_of False False True [Anthropic]) silent hello plain
          (new_ResilientLLMService 1000)))) = [Anthropic]
   \<and> failureCount (snd (snd (streamResponse (world_of False False True [Anthropic]) silent
          hello plain (new_ResilientLLMService 1000)))) = Map.empty
   \<and> map_sum id resp_provider
        (fst (generateResponse (world_of False False True [Anthropic]) hello (Some plain)
          (new_ResilientLLMService 1000))) = Inr ''OpenAI''"
  by (simp add: streamResponse_def generateResponse_def initializeProviders_def world_of_def
      flag_state_def hello_def plain_def new_ResilientLLMService_def vendors_down_def greeting_def
      shouldAttemptProvider_def failures_def lastFailure_def CIRCUIT_BREAKER_THRESHOLD_def
      CIRCUIT_BREAKER_TIMEOUT_def attempt_def isAvailable_def provider_generateResponse_def
      provider_streamResponse_def Anthropic_streamResponse_def stream_body_def invoke_def
      silent_def Anthropic_generateResponse_def OpenAI_generateResponse_def recordFailure_def
      recordSuccess_def or_string_def or_number_def optional_chain_def endTimer_def
      attempted_def Let_def)

subsection \<open>Switching the provider\<close>

text \<open>A request sets the primary to what \<open>auto\<close> resolves to, whatever it was before.\<close>

lemma tryFallbacks_primary:
  "tryFallbacks w ps messages options s = (r, s') \<Longrightarrow> primaryProvider s' = primaryProvider s"
proof (induction ps arbitrary: s)
  case Nil
  then show ?case by simp
next
  case (Cons p ps)
  show ?case
  proof (cases "shouldAttemptProvider (name p) s")
    case False
    with Cons show ?thesis by simp
  next
    case True
    obtain a s1 where a: "attempt w p messages options s = (a, s1)"
      by (cases "attempt w p messages options s")
    have keep: "primaryProvider s1 = primaryProvider s" using attempt_state(4) [OF a] .
    show ?thesis
    proof (cases a)
      case None
      with Cons.prems True a have "tryFallbacks w ps messages options s1 = (r, s')" by simp
      from Cons.IH [OF this] keep show ?thesis by simp
    next
      case (Some response)
      with Cons.prems True a have "s' = s1" by simp
      with keep show ?thesis by simp
    qed
  qed
qed

lemma generateResponse_resets_primary:
  "getCurrentProvider (snd (generateResponse w messages options s))
     = fst (getProvider w auto (providers s))"
proof -
  let ?s0 = "initializeProviders w s"
  let ?cs = "fst (getProvider w auto (providers s)) # [Anthropic, OpenAI]"
  obtain r s' where run: "tryFallbacks w ?cs messages options ?s0 = (r, s')"
    by (cases "tryFallbacks w ?cs messages options ?s0")
  from tryFallbacks_primary [OF run] run show ?thesis
    by (simp only: getCurrentProvider_def generateResponse_as_loop snd_conv
        initializeProviders_fields(1))
qed

lemma switchProvider_concrete:
  "getCurrentProvider (switchProvider w openai s) = OpenAI"
  "getCurrentProvider (switchProvider w anthropic s) = Anthropic"
  "getCurrentProvider (switchProvider w local s) = Local"
  by (simp_all add: getCurrentProvider_def switchProvider_def split: prod.splits)

text \<open>
  C8 does not hold of the code. Strict local mode and the local model are off and every
  vendor answers. After \<^verbatim>\<open>switchProvider('openai')\<close> on a new accessor,
  \<^verbatim>\<open>getCurrentProvider\<close> returns OpenAI. The next \<^verbatim>\<open>generateResponse\<close> attempts
  Anthropic only and returns its response, and \<^verbatim>\<open>getCurrentProvider\<close> returns Anthropic
  from then on.
\<close>

theorem switch_undone_by_next_request:
  "getCurrentProvider (switchProvider (world_of False False True []) openai
      (new_ResilientLLMService 1000)) = OpenAI
   \<and> attempted (switchProvider (world_of False False True []) openai (new_ResilientLLMService 1000))
        (snd (generateResponse (world_of False False True []) hello None
          (switchProvider (world_of False False True []) openai (new_ResilientLLMService 1000))))
      = [Anthropic]
   \<and> map_sum id resp_provider
        (fst (generateResponse (world_of False False True []) hello None
          (switchProvider (world_of False False True []) openai (new_ResilientLLMService 1000))))
      = Inr ''Anthropic''
   \<and> getCurrentProvider
        (snd (generateResponse (world_of False False True []) hello None
          (switchProvider (world_of False False True []) openai (new_ResilientLLMService 1000))))
      = Anthropic"
  by code_simp

subsection \<open>Defaults of the generation options\<close>

text \<open>What the two remote providers send for the temperature and the token limit.\<close>

lemma OpenAI_request:
  "sent (snd (OpenAI_generateResponse w messages options s)) = sent s @
     [(OpenAI, \<lparr>req_model = or_string (optional_chain options model) ''gpt-4o'',
                req_temperature = (case optional_chain options temperature of
                                     None \<Rightarrow> 0.7 | Some t \<Rightarrow> if t = 0 then 0.7 else t),
                req_maxTokens = (case optional_chain options maxTokens of
                                   None \<Rightarrow> 1024 | Some n \<Rightarrow> if n = 0 then 1024 else n)\<rparr>)]"
  by (simp add: OpenAI_generateResponse_def or_number_def Let_def split: prod.splits sum.splits)

lemma Anthropic_request:
  "sent (snd (Anthropic_generateResponse w messages options s)) = sent s @
     [(Anthropic, \<lparr>req_model = or_string (optional_chain options model) ''claude-3-5-sonnet-20240620'',
                req_temperature = (case optional_chain options temperature of
                                     None \<Rightarrow> 0.7 | Some t \<Rightarrow> if t = 0 then 0.7 else t),
                req_maxTokens = (case optional_chain options maxTokens of
                                   None \<Rightarrow> 1024 | Some n \<Rightarrow> if n = 0 then 1024 else n)\<rparr>)]"
  by (simp add: Anthropic_generateResponse_def or_number_def Let_def split: prod.splits sum.splits)

text \<open>
  C9 does not hold of the code. With options that carry temperature 0 and a token limit
  of 256, the requests that the OpenAI and the Anthropic provider send carry temperature
  0.7; the token limit is passed through.
\<close>

theorem temperature_zero_replaced:
  "temperature deterministic = Some 0
   \<and> map (req_temperature \<circ> snd)
       (sent (snd (OpenAI_generateResponse (world_of False False True []) hello
          (Some deterministic) (new_ResilientLLMService 1000)))) = [0.7]
   \<and> map (req_temperature \<circ> snd)
       (sent (snd (Anthropic_generateResponse (world_of False False True []) hello
          (Some deterministic) (new_ResilientLLMService 1000)))) = [0.7]
   \<and> map (req_maxTokens \<circ> snd)
       (sent (snd (OpenAI_generateResponse (world_of False False True []) hello
          (Some deterministic) (new_ResilientLLMService 1000)))) = [256]"
  by (simp add: OpenAI_request Anthropic_request deterministic_def optional_chain_def
      new_ResilientLLMService_def)

end
